theory Spec2Isabelle
  imports Complex_Main "HOL-Library.AList"
begin

section \<open>Values of the message model\<close>

text \<open>
  The module \<^verbatim>\<open>libmproxy/models/http.py\<close> is Python 2: a body or a path is a byte
  string (\<^verbatim>\<open>str\<close>), \<^verbatim>\<open>None\<close>, or, for a body, the sentinel \<^verbatim>\<open>CONTENT_MISSING\<close>
  (``Content of the request, None, or CONTENT_MISSING if there is content associated, but
  not present. CONTENT_MISSING evaluates to False'').
\<close>

datatype pystr = PyNone | CONTENT_MISSING | Str string

text \<open>Python truthiness of such a value: only a non-empty string is true.\<close>

fun truthy :: "pystr \<Rightarrow> bool" where
  "truthy (Str s) = (s \<noteq> [])"
| "truthy PyNone = False"
| "truthy CONTENT_MISSING = False"

text \<open>The exceptions that the module raises or lets through.\<close>

datatype error = TypeError | ValueError | IndexError | CookieError | Raised string

subsection \<open>Headers\<close>

text \<open>
  Modelled from the spec: \<^verbatim>\<open>netlib.odict.ODictCaseless\<close> is an external library class.
  The spec describes it as an ordered mapping from name to list of values, compared
  without regard to case, keeping insertion order and every value of a repeated name.
  The operations below are the ones the module calls: membership, item access (all the
  values of a name), \<^verbatim>\<open>get_first\<close>, item deletion (every entry of the name), item
  assignment (the old entries of the name go, the new values are appended under the name
  as given).
\<close>

type_synonym headers = "(string \<times> string) list"

definition lower_char :: "char \<Rightarrow> char" where
  "lower_char c =
     (case map_of (zip ''ABCDEFGHIJKLMNOPQRSTUVWXYZ'' ''abcdefghijklmnopqrstuvwxyz'') c of
        None \<Rightarrow> c
      | Some l \<Rightarrow> l)"

definition lower :: "string \<Rightarrow> string" where
  "lower s = map lower_char s"

definition same_key :: "string \<Rightarrow> string \<Rightarrow> bool" where
  "same_key k k' = (lower k = lower k')"

definition odict_get :: "string \<Rightarrow> headers \<Rightarrow> string list" where
  "odict_get k h = map snd (filter (\<lambda>kv. same_key k (fst kv)) h)"

definition odict_in :: "string \<Rightarrow> headers \<Rightarrow> bool" where
  "odict_in k h = list_ex (\<lambda>kv. same_key k (fst kv)) h"

definition get_first :: "string \<Rightarrow> headers \<Rightarrow> string option" where
  "get_first k h = (case odict_get k h of [] \<Rightarrow> None | v # _ \<Rightarrow> Some v)"

definition odict_del :: "string \<Rightarrow> headers \<Rightarrow> headers" where
  "odict_del k h = filter (\<lambda>kv. \<not> same_key k (fst kv)) h"

definition odict_set :: "string \<Rightarrow> string list \<Rightarrow> headers \<Rightarrow> headers" where
  "odict_set k vs h = odict_del k h @ map (\<lambda>v. (k, v)) vs"

subsection \<open>The content codec\<close>

text \<open>
  \<^verbatim>\<open>netlib.encoding\<close> is an external library: its two functions are parameters of the
  model. \<^verbatim>\<open>encoding.decode\<close> answers \<^verbatim>\<open>None\<close> when the data cannot be decoded; the
  module only calls it on a non-empty string. \<^verbatim>\<open>encoding.encode\<close> receives whatever
  the body is at that moment and may raise.
\<close>

record codec =
  encoding_decode :: "string \<Rightarrow> string \<Rightarrow> string option"
  encoding_encode :: "string \<Rightarrow> pystr \<Rightarrow> error + pystr"

text \<open>
  Modelled from the spec: the constant \<^verbatim>\<open>encoding.ENCODINGS\<close> of the external library,
  ``an enumerated closed set (e.g. identity, gzip, deflate)''; the docstring of
  \<^verbatim>\<open>MessageMixin.encode\<close> names the same three.
\<close>

definition ENCODINGS :: "string list" where
  "ENCODINGS = [''identity'', ''gzip'', ''deflate'']"

text \<open>\<^verbatim>\<open>ce in encoding.ENCODINGS\<close>, where \<^verbatim>\<open>ce\<close> is a header value or \<^verbatim>\<open>None\<close>.\<close>

fun in_ENCODINGS :: "string option \<Rightarrow> bool" where
  "in_ENCODINGS None = False"
| "in_ENCODINGS (Some e) = (e \<in> set ENCODINGS)"

section \<open>MessageMixin\<close>

record message =
  httpversion :: "(int \<times> int) option"
  headers :: headers
  body :: pystr
  timestamp_start :: "rat option"
  timestamp_end :: "rat option"

text \<open>\<^verbatim>\<open>get_decoded_content\<close>: the message is not changed, so only the value is returned.\<close>

definition get_decoded_content :: "codec \<Rightarrow> 'a message_scheme \<Rightarrow> pystr" where
  "get_decoded_content cd m =
     (let ce = get_first ''content-encoding'' (headers m) in
      if \<not> truthy (body m) \<or> \<not> in_ENCODINGS ce then body m
      else case (ce, body m) of
             (Some e, Str b) \<Rightarrow>
               (case encoding_decode cd e b of None \<Rightarrow> PyNone | Some data \<Rightarrow> Str data)
           | _ \<Rightarrow> body m)"

text \<open>
  \<^verbatim>\<open>decode\<close> mutates the message and returns a boolean: the model returns the message
  after the call and the boolean.
\<close>

definition decode :: "codec \<Rightarrow> 'a message_scheme \<Rightarrow> 'a message_scheme \<times> bool" where
  "decode cd m =
     (let ce = get_first ''content-encoding'' (headers m) in
      if \<not> truthy (body m) \<or> \<not> in_ENCODINGS ce then (m, False)
      else case (ce, body m) of
             (Some e, Str b) \<Rightarrow>
               (case encoding_decode cd e b of
                  None \<Rightarrow> (m, False)
                | Some data \<Rightarrow>
                    (m\<lparr>body := Str data,
                       headers := odict_del ''content-encoding'' (headers m)\<rparr>, True))
           | _ \<Rightarrow> (m, False))"

text \<open>
  \<^verbatim>\<open>encode\<close>: the codec runs before the two assignments, so an exception of the
  codec leaves the message as it was.
\<close>

definition encode :: "codec \<Rightarrow> string \<Rightarrow> 'a message_scheme \<Rightarrow> 'a message_scheme \<times> (error + unit)" where
  "encode cd e m =
     (case encoding_encode cd e (body m) of
        Inl err \<Rightarrow> (m, Inl err)
      | Inr b \<Rightarrow>
          (m\<lparr>body := b, headers := odict_set ''content-encoding'' [e] (headers m)\<rparr>, Inr ()))"

section \<open>The context manager \<^verbatim>\<open>decoded\<close>\<close>

text \<open>
  \<^verbatim>\<open>__init__\<close> remembers the encoding in the attribute \<^verbatim>\<open>ce\<close>; \<^verbatim>\<open>__enter__\<close> and
  \<^verbatim>\<open>__exit__\<close> test it with \<^verbatim>\<open>if self.ce:\<close>, which is false for \<^verbatim>\<open>None\<close> and for the
  empty string.
\<close>

definition decoded_init :: "'a message_scheme \<Rightarrow> string option" where
  "decoded_init m =
     (let ce = get_first ''content-encoding'' (headers m) in
      if in_ENCODINGS ce then ce else None)"

fun ce_truthy :: "string option \<Rightarrow> bool" where
  "ce_truthy None = False"
| "ce_truthy (Some e) = (e \<noteq> [])"

definition decoded_enter :: "codec \<Rightarrow> string option \<Rightarrow> 'a message_scheme \<Rightarrow> 'a message_scheme" where
  "decoded_enter cd ce m = (if ce_truthy ce then fst (decode cd m) else m)"

definition decoded_exit ::
  "codec \<Rightarrow> string option \<Rightarrow> 'a message_scheme \<Rightarrow> 'a message_scheme \<times> (error + unit)" where
  "decoded_exit cd ce m =
     (case ce of
        None \<Rightarrow> (m, Inr ())
      | Some e \<Rightarrow> if ce_truthy (Some e) then encode cd e m else (m, Inr ()))"

text \<open>
  The statement \<^verbatim>\<open>with decoded(o): block\<close>. The block is a function from the message to
  the message it leaves and either the exception it raised or its value. Python calls
  \<^verbatim>\<open>__exit__\<close> on both ways out of the block; \<^verbatim>\<open>__exit__\<close> returns \<^verbatim>\<open>None\<close>, so an
  exception of the block is raised again after it, and an exception of \<^verbatim>\<open>__exit__\<close>
  itself takes its place.
\<close>

definition with_decoded ::
  "codec \<Rightarrow> 'a message_scheme \<Rightarrow> ('a message_scheme \<Rightarrow> 'a message_scheme \<times> (error + 'r))
     \<Rightarrow> 'a message_scheme \<times> (error + 'r)" where
  "with_decoded cd m block =
     (let ce = decoded_init m;
          m1 = decoded_enter cd ce m
      in case block m1 of
           (m2, r) \<Rightarrow>
             (case decoded_exit cd ce m2 of
                (m3, Inl err) \<Rightarrow> (m3, Inl err)
              | (m3, Inr u) \<Rightarrow> (m3, r)))"

subsection \<open>Substitution\<close>

text \<open>
  Modelled from the spec: \<^verbatim>\<open>utils.safe_subn\<close> (\<^verbatim>\<open>libmproxy/utils.py\<close>, not among the
  sources) ``applies a textual pattern substitution'' to a target and returns the new text
  with the number of substitutions made. The pattern language belongs to the regular
  expression engine, so for one pattern and replacement the helper is a parameter:
  \<open>subn\<close> is what it does with a string target, \<open>subn_other\<close> what it does with a target
  that is not a string (\<^verbatim>\<open>None\<close>, \<^verbatim>\<open>CONTENT_MISSING\<close>). Either may raise.
\<close>

record subst =
  subn :: "string \<Rightarrow> error + (string \<times> nat)"
  subn_other :: "pystr \<Rightarrow> error + (pystr \<times> nat)"

definition safe_subn :: "subst \<Rightarrow> pystr \<Rightarrow> error + (pystr \<times> nat)" where
  "safe_subn sb t =
     (case t of
        Str s \<Rightarrow> (case subn sb s of Inl err \<Rightarrow> Inl err | Inr (s', c) \<Rightarrow> Inr (Str s', c))
      | _ \<Rightarrow> subn_other sb t)"

text \<open>
  Modelled from the spec: \<^verbatim>\<open>ODictCaseless.replace\<close> of the external library, which the
  spec describes as the substitution applied ``to every header value'', answering the
  number of substitutions. The new list is assigned when the loop is over, so an exception
  leaves the headers as they were.
\<close>

fun odict_replace :: "subst \<Rightarrow> headers \<Rightarrow> error + (headers \<times> nat)" where
  "odict_replace sb [] = Inr ([], 0)"
| "odict_replace sb ((k, v) # h) =
     (case subn sb v of
        Inl err \<Rightarrow> Inl err
      | Inr (v', c) \<Rightarrow>
          (case odict_replace sb h of
             Inl err \<Rightarrow> Inl err
           | Inr (h', n) \<Rightarrow> Inr ((k, v') # h', c + n)))"

subsection \<open>\<^verbatim>\<open>MessageMixin.replace\<close>\<close>

text \<open>The block of the \<^verbatim>\<open>with\<close> statement: \<^verbatim>\<open>self.body, c = utils.safe_subn(...)\<close>.\<close>

definition replace_block ::
  "subst \<Rightarrow> 'a message_scheme \<Rightarrow> 'a message_scheme \<times> (error + nat)" where
  "replace_block sb m =
     (case safe_subn sb (body m) of
        Inl err \<Rightarrow> (m, Inl err)
      | Inr (b, c) \<Rightarrow> (m\<lparr>body := b\<rparr>, Inr c))"

definition MessageMixin_replace ::
  "codec \<Rightarrow> subst \<Rightarrow> 'a message_scheme \<Rightarrow> 'a message_scheme \<times> (error + nat)" where
  "MessageMixin_replace cd sb m =
     (case with_decoded cd m (replace_block sb) of
        (m2, Inl err) \<Rightarrow> (m2, Inl err)
      | (m2, Inr c) \<Rightarrow>
          (case odict_replace sb (headers m2) of
             Inl err \<Rightarrow> (m2, Inl err)
           | Inr (h, hc) \<Rightarrow> (m2\<lparr>headers := h\<rparr>, Inr (c + hc))))"

subsection \<open>The short and the full state\<close>

text \<open>The values of a state dictionary.\<close>

datatype stateval =
  SNone | SMissing | SInt int | SFloat rat | SStr string | STuple "int \<times> int"
  | SHeaders "(string \<times> string) list"

definition state_of_pystr :: "pystr \<Rightarrow> stateval" where
  "state_of_pystr b = (case b of PyNone \<Rightarrow> SNone | CONTENT_MISSING \<Rightarrow> SMissing | Str s \<Rightarrow> SStr s)"

definition state_of_float :: "rat option \<Rightarrow> stateval" where
  "state_of_float t = (case t of None \<Rightarrow> SNone | Some x \<Rightarrow> SFloat x)"

text \<open>
  The table \<^verbatim>\<open>_stateobject_attributes\<close> of \<^verbatim>\<open>MessageMixin\<close> with the value of each
  attribute, and \<^verbatim>\<open>_stateobject_long_attributes\<close>.
\<close>

definition stateobject_attributes :: "'a message_scheme \<Rightarrow> (string \<times> stateval) list" where
  "stateobject_attributes m =
     [(''httpversion'', (case httpversion m of None \<Rightarrow> SNone | Some v \<Rightarrow> STuple v)),
      (''headers'', SHeaders (headers m)),
      (''body'', state_of_pystr (body m)),
      (''timestamp_start'', state_of_float (timestamp_start m)),
      (''timestamp_end'', state_of_float (timestamp_end m))]"

definition stateobject_long_attributes :: "string list" where
  "stateobject_long_attributes = [''body'']"

text \<open>
  Modelled from the spec: \<^verbatim>\<open>StateObject.get_state\<close> (\<^verbatim>\<open>libmproxy/stateobject.py\<close>, not
  among the sources). Full: every declared attribute is serialized. Short: identical to
  full except that the attributes marked long are left to the subclass.
\<close>

definition StateObject_get_state :: "bool \<Rightarrow> 'a message_scheme \<Rightarrow> (string \<rightharpoonup> stateval)" where
  "StateObject_get_state short m =
     map_of (filter (\<lambda>kv. \<not> (short \<and> fst kv \<in> set stateobject_long_attributes))
               (stateobject_attributes m))"

text \<open>\<^verbatim>\<open>len(self.body)\<close> is only evaluated for a true body, that is a non-empty string.\<close>

definition len :: "pystr \<Rightarrow> int" where
  "len b = (case b of Str s \<Rightarrow> int (length s) | _ \<Rightarrow> 0)"

definition get_state :: "bool \<Rightarrow> 'a message_scheme \<Rightarrow> (string \<rightharpoonup> stateval)" where
  "get_state short m =
     (let ret = StateObject_get_state short m in
      if short then
        (if truthy (body m) then ret(''contentLength'' \<mapsto> SInt (len (body m)))
         else if body m = CONTENT_MISSING then ret(''contentLength'' \<mapsto> SNone)
         else ret(''contentLength'' \<mapsto> SInt 0))
      else ret)"

section \<open>HTTPRequest\<close>

record request = message +
  form_in :: "string option"
  http_method :: "string option"
  scheme :: "string option"
  host :: "string option"
  port :: "int option"
  path :: pystr
  form_out :: "string option"
  stickycookie :: bool
  stickyauth :: bool
  is_replay :: bool

definition HTTPRequest_replace ::
  "codec \<Rightarrow> subst \<Rightarrow> 'a request_scheme \<Rightarrow> 'a request_scheme \<times> (error + nat)" where
  "HTTPRequest_replace cd sb r =
     (case MessageMixin_replace cd sb r of
        (r1, Inl err) \<Rightarrow> (r1, Inl err)
      | (r1, Inr c) \<Rightarrow>
          (case safe_subn sb (path r1) of
             Inl err \<Rightarrow> (r1, Inl err)
           | Inr (p, pc) \<Rightarrow> (r1\<lparr>path := p\<rparr>, Inr (c + pc))))"

section \<open>HTTPResponse\<close>

record response = message +
  status_code :: "int option"
  msg :: "string option"
  resp_is_replay :: bool
  stream :: bool

subsection \<open>The standard library behind \<^verbatim>\<open>refresh\<close>\<close>

text \<open>
  \<^verbatim>\<open>email.utils.parsedate_tz\<close>, \<^verbatim>\<open>mktime_tz\<close>, \<^verbatim>\<open>formatdate\<close> and \<^verbatim>\<open>time.time\<close> belong to
  the Python standard library and are parameters of the model. Each call may raise, and
  the exception passes through \<^verbatim>\<open>refresh\<close>. A parsed date is the tuple year, month, day,
  hour, minute, second and zone offset in seconds (\<^verbatim>\<open>None\<close> when the text names no zone);
  \<^verbatim>\<open>parsedate_tz\<close> answers \<^verbatim>\<open>None\<close> for a text it cannot parse.

  Time stamps are Python floats, that is doubles, and every double is a rational number.
  The difference \<^verbatim>\<open>now - self.timestamp_start\<close> and the sum \<^verbatim>\<open>mktime_tz(d) + delta\<close> are
  float operations: their results are rounded. The two operations are parameters,
  \<open>float_sub\<close> and \<open>float_add\<close>.
\<close>

type_synonym time_tuple = "int \<times> int \<times> int \<times> int \<times> int \<times> int \<times> int option"

record stdlib =
  parsedate_tz :: "string \<Rightarrow> error + time_tuple option"
  mktime_tz :: "time_tuple \<Rightarrow> error + rat"
  formatdate :: "rat \<Rightarrow> error + string"
  time_time :: rat
  float_sub :: "rat \<Rightarrow> rat \<Rightarrow> rat"
  float_add :: "rat \<Rightarrow> rat \<Rightarrow> rat"

text \<open>
  \<^verbatim>\<open>Cookie.SimpleCookie\<close> is a dictionary of morsels. A morsel has a key, a value, the
  coded value and a dictionary of attributes, which is the list of its items, each name
  once. Parsing a header value, which raises \<^verbatim>\<open>CookieError\<close> on an illegal key, and
  printing the cookie with \<^verbatim>\<open>output(header="")\<close> are parameters too.
\<close>

record morsel =
  key :: string
  val :: string
  coded_value :: string
  attrs :: "(string \<times> string) list"

record cookielib =
  SimpleCookie :: "string \<Rightarrow> error + morsel list"
  cookie_output :: "morsel list \<Rightarrow> error + string"

text \<open>\<^verbatim>\<open>str.strip()\<close>: white space is removed at both ends.\<close>

definition is_space :: "char \<Rightarrow> bool" where
  "is_space c = (c \<in> set [CHR '' '', CHR 0x09, CHR 0x0A, CHR 0x0B, CHR 0x0C, CHR 0x0D])"

definition strip :: "string \<Rightarrow> string" where
  "strip s = rev (dropWhile is_space (rev (dropWhile is_space s)))"

text \<open>A loop that calls \<open>f\<close> on each element in turn and stops at the first exception.\<close>

fun map_result :: "('a \<Rightarrow> error + 'b) \<Rightarrow> 'a list \<Rightarrow> error + 'b list" where
  "map_result f [] = Inr []"
| "map_result f (x # xs) =
     (case f x of
        Inl err \<Rightarrow> Inl err
      | Inr y \<Rightarrow> (case map_result f xs of Inl err \<Rightarrow> Inl err | Inr ys \<Rightarrow> Inr (y # ys)))"

text \<open>
  The expression \<^verbatim>\<open>formatdate(mktime_tz(d) + delta)\<close>, which both \<^verbatim>\<open>_refresh_cookie\<close> and
  \<^verbatim>\<open>refresh\<close> evaluate for a parsed date \<^verbatim>\<open>d\<close>.
\<close>

definition shifted_date :: "stdlib \<Rightarrow> rat \<Rightarrow> time_tuple \<Rightarrow> error + string" where
  "shifted_date lib delta d =
     (case mktime_tz lib d of
        Inl err \<Rightarrow> Inl err
      | Inr t \<Rightarrow> formatdate lib (float_add lib t delta))"

subsection \<open>\<^verbatim>\<open>_refresh_cookie\<close>\<close>

text \<open>The body of the loop over \<^verbatim>\<open>c.values()\<close>, for one morsel \<^verbatim>\<open>i\<close>.\<close>

definition refresh_morsel :: "stdlib \<Rightarrow> rat \<Rightarrow> morsel \<Rightarrow> error + morsel" where
  "refresh_morsel lib delta i =
     (case map_of (attrs i) ''expires'' of
        None \<Rightarrow> Inr i
      | Some e \<Rightarrow>
          (case parsedate_tz lib e of
             Inl err \<Rightarrow> Inl err
           | Inr (Some d) \<Rightarrow>
               (case shifted_date lib delta d of
                  Inl err \<Rightarrow> Inl err
                | Inr s \<Rightarrow> Inr (i\<lparr>attrs := AList.update ''expires'' s (attrs i)\<rparr>))
           | Inr None \<Rightarrow> Inr (i\<lparr>attrs := AList.delete ''expires'' (attrs i)\<rparr>)))"

definition refresh_cookie :: "stdlib \<Rightarrow> cookielib \<Rightarrow> string \<Rightarrow> rat \<Rightarrow> error + string" where
  "refresh_cookie lib ck c delta =
     (case SimpleCookie ck c of
        Inl err \<Rightarrow> Inl err
      | Inr ms \<Rightarrow>
          (case map_result (refresh_morsel lib delta) ms of
             Inl err \<Rightarrow> Inl err
           | Inr ms' \<Rightarrow>
               (case cookie_output ck ms' of
                  Inl err \<Rightarrow> Inl err
                | Inr out \<Rightarrow> Inr (strip out))))"

subsection \<open>\<^verbatim>\<open>refresh\<close>\<close>

definition refresh_headers :: "string list" where
  "refresh_headers = [''date'', ''expires'', ''last-modified'']"

text \<open>
  The body of the loop over \<^verbatim>\<open>refresh_headers\<close>, for one name \<^verbatim>\<open>i\<close>: the new headers, or
  the exception raised before the assignment.
\<close>

definition refresh_header :: "stdlib \<Rightarrow> rat \<Rightarrow> string \<Rightarrow> headers \<Rightarrow> error + headers" where
  "refresh_header lib delta i h =
     (if odict_in i h then
        (case odict_get i h of
           [] \<Rightarrow> Inr h
         | v # _ \<Rightarrow>
             (case parsedate_tz lib v of
                Inl err \<Rightarrow> Inl err
              | Inr (Some d) \<Rightarrow>
                  (case shifted_date lib delta d of
                     Inl err \<Rightarrow> Inl err
                   | Inr s \<Rightarrow> Inr (odict_set i [s] h))
              | Inr None \<Rightarrow> Inr h))
      else Inr h)"

text \<open>
  The loop itself. The headers are changed in place, so an exception leaves them as the
  earlier rounds made them.
\<close>

fun refresh_loop :: "stdlib \<Rightarrow> rat \<Rightarrow> string list \<Rightarrow> headers \<Rightarrow> headers \<times> (error + unit)" where
  "refresh_loop lib delta [] h = (h, Inr ())"
| "refresh_loop lib delta (i # names) h =
     (case refresh_header lib delta i h of
        Inl err \<Rightarrow> (h, Inl err)
      | Inr h' \<Rightarrow> refresh_loop lib delta names h')"

text \<open>
  \<^verbatim>\<open>if not now: now = time.time()\<close>. The test holds for \<^verbatim>\<open>None\<close> and for zero.
\<close>

definition now_or_clock :: "stdlib \<Rightarrow> rat option \<Rightarrow> rat" where
  "now_or_clock lib now =
     (case now of None \<Rightarrow> time_time lib | Some n \<Rightarrow> if n = 0 then time_time lib else n)"

text \<open>
  What \<^verbatim>\<open>refresh\<close> does once \<^verbatim>\<open>delta\<close> is known. The item access
  \<^verbatim>\<open>self.headers["set-cookie"]\<close> gives the empty list when there is no such header, and the
  new list of cookies is assigned after the loop over them.
\<close>

definition refresh_from ::
  "stdlib \<Rightarrow> cookielib \<Rightarrow> rat \<Rightarrow> 'a response_scheme \<Rightarrow> 'a response_scheme \<times> (error + unit)" where
  "refresh_from lib ck delta r =
     (case refresh_loop lib delta refresh_headers (headers r) of
        (h1, Inl err) \<Rightarrow> (r\<lparr>headers := h1\<rparr>, Inl err)
      | (h1, Inr u) \<Rightarrow>
          (case map_result (\<lambda>i. refresh_cookie lib ck i delta) (odict_get ''set-cookie'' h1) of
             Inl err \<Rightarrow> (r\<lparr>headers := h1\<rparr>, Inl err)
           | Inr c \<Rightarrow>
               (r\<lparr>headers := (if c \<noteq> [] then odict_set ''set-cookie'' c h1 else h1)\<rparr>, Inr ())))"

text \<open>
  \<^verbatim>\<open>refresh\<close>. The difference \<^verbatim>\<open>now - self.timestamp_start\<close> raises \<^verbatim>\<open>TypeError\<close> when the
  time stamp is \<^verbatim>\<open>None\<close>.
\<close>

definition refresh ::
  "stdlib \<Rightarrow> cookielib \<Rightarrow> rat option \<Rightarrow> 'a response_scheme \<Rightarrow> 'a response_scheme \<times> (error + unit)" where
  "refresh lib ck now r =
     (let now' = now_or_clock lib now
      in case timestamp_start r of
           None \<Rightarrow> (r, Inl TypeError)
         | Some t0 \<Rightarrow> refresh_from lib ck (float_sub lib now' t0) r)"

section \<open>HTTPFlow\<close>

subsection \<open>\<^verbatim>\<open>match\<close>\<close>

text \<open>
  The argument of \<^verbatim>\<open>match\<close> is \<^verbatim>\<open>None\<close>, a filter expression as text, or a compiled
  filter, which is a predicate on flows. \<^verbatim>\<open>filt.parse\<close> (\<^verbatim>\<open>libmproxy/filt.py\<close>, the
  external filter engine of the spec) is a parameter: it answers \<^verbatim>\<open>None\<close> for an
  expression it cannot compile.
\<close>

datatype 'f filt_arg = FNone | FText string | FCompiled "'f \<Rightarrow> bool"

definition HTTPFlow_match ::
  "(string \<Rightarrow> ('f \<Rightarrow> bool) option) \<Rightarrow> 'f \<Rightarrow> 'f filt_arg \<Rightarrow> error + bool" where
  "HTTPFlow_match filt_parse self f =
     (case (case f of
              FText s \<Rightarrow> (case filt_parse s of None \<Rightarrow> Inl ValueError | Some p \<Rightarrow> Inr (Some p))
            | FCompiled p \<Rightarrow> Inr (Some p)
            | FNone \<Rightarrow> Inr None) of
        Inl err \<Rightarrow> Inl err
      | Inr (Some p) \<Rightarrow> Inr (p self)
      | Inr None \<Rightarrow> Inr True)"

subsection \<open>\<^verbatim>\<open>copy\<close>\<close>

text \<open>
  Copies are about object identity, so here the objects live in a store. A message object
  refers to its headers object; a flow object refers to its request, response, error and
  connections. Connections and errors are owned elsewhere: the store only holds their
  references.
\<close>

type_synonym ref = nat

record message_obj =
  obj_headers :: ref
  obj_body :: pystr

record flow_obj =
  f_request :: "ref option"
  f_response :: "ref option"
  f_error :: "ref option"
  f_client_conn :: "ref option"
  f_server_conn :: "ref option"
  f_live :: bool
  f_intercepted :: bool

record store =
  odicts :: "ref \<rightharpoonup> headers"
  messages :: "ref \<rightharpoonup> message_obj"
  flows :: "ref \<rightharpoonup> flow_obj"
  next_ref :: ref

definition alloc :: "store \<Rightarrow> ref \<times> store" where
  "alloc s = (next_ref s, s\<lparr>next_ref := Suc (next_ref s)\<rparr>)"

text \<open>
  Modelled from the spec: \<^verbatim>\<open>ODict.copy\<close> of the external library gives a new headers
  object with the same entries (``headers are deep-copied'').
\<close>

definition ODict_copy :: "store \<Rightarrow> ref \<Rightarrow> (ref \<times> store) option" where
  "ODict_copy s a =
     (case odicts s a of
        None \<Rightarrow> None
      | Some l \<Rightarrow> (case alloc s of (a', s1) \<Rightarrow> Some (a', s1\<lparr>odicts := (odicts s1)(a' \<mapsto> l)\<rparr>)))"

text \<open>
  \<^verbatim>\<open>MessageMixin.copy\<close>: \<^verbatim>\<open>copy.copy(self)\<close> is a new object with the attributes of the old
  one, then its headers attribute is set to a copy of the headers.
\<close>

definition MessageMixin_copy :: "store \<Rightarrow> ref \<Rightarrow> (ref \<times> store) option" where
  "MessageMixin_copy s a =
     (case messages s a of
        None \<Rightarrow> None
      | Some self \<Rightarrow>
          (case alloc s of
             (c, s1) \<Rightarrow>
               (let s2 = s1\<lparr>messages := (messages s1)(c \<mapsto> self)\<rparr> in
                case ODict_copy s2 (obj_headers self) of
                  None \<Rightarrow> None
                | Some (hc, s3) \<Rightarrow>
                    Some (c, s3\<lparr>messages := (messages s3)(c \<mapsto> self\<lparr>obj_headers := hc\<rparr>)\<rparr>))))"

text \<open>
  Modelled from the spec: \<^verbatim>\<open>Flow.copy\<close> (\<^verbatim>\<open>libmproxy/models/flow.py\<close>, not among the
  sources) gives a new flow object that ``shares error/connection references'' with the
  old one; request and response are left to the subclass.
\<close>

definition Flow_copy :: "store \<Rightarrow> ref \<Rightarrow> (ref \<times> store) option" where
  "Flow_copy s a =
     (case flows s a of
        None \<Rightarrow> None
      | Some self \<Rightarrow> (case alloc s of (f, s1) \<Rightarrow> Some (f, s1\<lparr>flows := (flows s1)(f \<mapsto> self)\<rparr>)))"

text \<open>The two assignments \<^verbatim>\<open>f.request = ...\<close> and \<^verbatim>\<open>f.response = ...\<close>.\<close>

definition set_request :: "store \<Rightarrow> ref \<Rightarrow> ref \<Rightarrow> store option" where
  "set_request s f r =
     (case flows s f of
        None \<Rightarrow> None
      | Some fo \<Rightarrow> Some (s\<lparr>flows := (flows s)(f \<mapsto> fo\<lparr>f_request := Some r\<rparr>)\<rparr>))"

definition set_response :: "store \<Rightarrow> ref \<Rightarrow> ref \<Rightarrow> store option" where
  "set_response s f r =
     (case flows s f of
        None \<Rightarrow> None
      | Some fo \<Rightarrow> Some (s\<lparr>flows := (flows s)(f \<mapsto> fo\<lparr>f_response := Some r\<rparr>)\<rparr>))"

text \<open>
  \<^verbatim>\<open>HTTPFlow.copy\<close>. The result is \<^verbatim>\<open>None\<close> only when a reference dangles, which no
  Python object graph does.
\<close>

definition copy_request :: "store \<Rightarrow> flow_obj \<Rightarrow> ref \<Rightarrow> store option" where
  "copy_request s self f =
     (case f_request self of
        None \<Rightarrow> Some s
      | Some rq \<Rightarrow>
          (case MessageMixin_copy s rq of
             None \<Rightarrow> None
           | Some (rq', s1) \<Rightarrow> set_request s1 f rq'))"

definition copy_response :: "store \<Rightarrow> flow_obj \<Rightarrow> ref \<Rightarrow> store option" where
  "copy_response s self f =
     (case f_response self of
        None \<Rightarrow> Some s
      | Some rp \<Rightarrow>
          (case MessageMixin_copy s rp of
             None \<Rightarrow> None
           | Some (rp', s1) \<Rightarrow> set_response s1 f rp'))"

definition HTTPFlow_copy :: "store \<Rightarrow> ref \<Rightarrow> (ref \<times> store) option" where
  "HTTPFlow_copy s a =
     (case flows s a of
        None \<Rightarrow> None
      | Some self \<Rightarrow>
          (case Flow_copy s a of
             None \<Rightarrow> None
           | Some (f, s1) \<Rightarrow>
               (case copy_request s1 self f of
                  None \<Rightarrow> None
                | Some s2 \<Rightarrow>
                    (case copy_response s2 self f of
                       None \<Rightarrow> None
                     | Some s3 \<Rightarrow> Some (f, s3)))))"

section \<open>Sample libraries\<close>

text \<open>
  Concrete instances of the library parameters, on which the model runs on concrete
  messages.
\<close>

text \<open>
  A codec with the interface of the library: it marks encoded data with a prefix instead
  of compressing it, and like the library it cannot encode a body that is not a string
  unless the encoding is the identity.
\<close>

definition sample_decode :: "string \<Rightarrow> string \<Rightarrow> string option" where
  "sample_decode e b =
     (if e = ''identity'' then Some b
      else if e = ''gzip'' then (if take 3 b = ''GZ:'' then Some (drop 3 b) else None)
      else if e = ''deflate'' then (if take 3 b = ''DF:'' then Some (drop 3 b) else None)
      else None)"

definition sample_encode :: "string \<Rightarrow> pystr \<Rightarrow> error + pystr" where
  "sample_encode e b =
     (case b of
        Str s \<Rightarrow>
          Inr (Str ((if e = ''gzip'' then ''GZ:'' else if e = ''deflate'' then ''DF:'' else []) @ s))
      | _ \<Rightarrow> if e = ''identity'' then Inr b else Inl TypeError)"

definition sample_codec :: codec where
  "sample_codec = \<lparr>encoding_decode = sample_decode, encoding_encode = sample_encode\<rparr>"

text \<open>
  A substitution: the pattern \<^verbatim>\<open>a\<close> replaced by \<^verbatim>\<open>A\<close>, which raises \<^verbatim>\<open>TypeError\<close>
  on a target that is not a string, as the regular expression engine does.
\<close>

definition sample_subst :: subst where
  "sample_subst =
     \<lparr>subn = (\<lambda>s. Inr (map (\<lambda>c. if c = CHR ''a'' then CHR ''A'' else c) s,
                         length (filter (\<lambda>c. c = CHR ''a'') s))),
      subn_other = (\<lambda>t. Inl TypeError)\<rparr>"

subsection \<open>Float arithmetic\<close>

text \<open>
  The sum and the difference of doubles: the exact result rounded to 53 significant bits,
  ties to the even neighbour. Overflow and subnormal numbers are left out; time stamps
  are far from both.
\<close>

function bit_length :: "int \<Rightarrow> int" where
  "bit_length n = (if n \<le> 0 then 0 else 1 + bit_length (n div 2))"
  by pat_completeness auto
termination
  by (relation "measure nat") auto

declare bit_length.simps [simp del]

definition pow2 :: "int \<Rightarrow> rat" where
  "pow2 e = (if 0 \<le> e then 2 ^ nat e else 1 / 2 ^ nat (- e))"

text \<open>For a positive \<open>x\<close>, the exponent \<open>e\<close> with \<open>pow2 e \<le> x < pow2 (e + 1)\<close>.\<close>

definition ilog2 :: "rat \<Rightarrow> int" where
  "ilog2 x =
     (case quotient_of x of
        (p, q) \<Rightarrow>
          (let e0 = bit_length p - bit_length q
           in if pow2 e0 \<le> x then e0 else e0 - 1))"

definition round_half_even :: "rat \<Rightarrow> int" where
  "round_half_even x =
     (let f = \<lfloor>x\<rfloor>; d = x - of_int f
      in if d < 1 / 2 then f else if 1 / 2 < d then f + 1 else if even f then f else f + 1)"

definition round_double :: "rat \<Rightarrow> rat" where
  "round_double x =
     (if x = 0 then 0
      else (let e = ilog2 \<bar>x\<bar>; m = round_half_even (\<bar>x\<bar> * pow2 (52 - e))
            in sgn x * of_int m * pow2 (e - 52)))"

definition sample_float_sub :: "rat \<Rightarrow> rat \<Rightarrow> rat" where
  "sample_float_sub x y = round_double (x - y)"

definition sample_float_add :: "rat \<Rightarrow> rat \<Rightarrow> rat" where
  "sample_float_add x y = round_double (x + y)"

subsection \<open>A date library\<close>

text \<open>
  \<open>sample_parsedate_tz\<close> follows \<^verbatim>\<open>email.utils.parsedate_tz\<close> of Python 2.7 step by step:
  the name of the day is dropped, a date in the form \<^verbatim>\<open>31-Dec-2037\<close> is taken apart, a
  missing zone is \<^verbatim>\<open>None\<close>, a time may come without seconds, a year below 100 is completed,
  and a numeric zone \<^verbatim>\<open>+hhmm\<close> becomes seconds. Indexing an empty word raises
  \<^verbatim>\<open>IndexError\<close>, as does a text of white space only.
\<close>

fun split_where :: "(char \<Rightarrow> bool) \<Rightarrow> string \<Rightarrow> string list" where
  "split_where p [] = [[]]"
| "split_where p (x # xs) =
     (if p x then [] # split_where p xs
      else (case split_where p xs of [] \<Rightarrow> [[x]] | w # ws \<Rightarrow> (x # w) # ws))"

definition split_on :: "char \<Rightarrow> string \<Rightarrow> string list" where
  "split_on c s = split_where (\<lambda>x. x = c) s"

definition split_words :: "string \<Rightarrow> string list" where
  "split_words s = filter (\<lambda>w. w \<noteq> []) (split_where is_space s)"

definition digit_val :: "char \<Rightarrow> int option" where
  "digit_val c = map_of (zip ''0123456789'' [0, 1, 2, 3, 4, 5, 6, 7, 8, 9]) c"

fun digits_val :: "int \<Rightarrow> string \<Rightarrow> int option" where
  "digits_val acc [] = Some acc"
| "digits_val acc (c # cs) =
     (case digit_val c of None \<Rightarrow> None | Some d \<Rightarrow> digits_val (10 * acc + d) cs)"

text \<open>\<^verbatim>\<open>int(s)\<close> for a word: \<^verbatim>\<open>None\<close> stands for \<^verbatim>\<open>ValueError\<close>.\<close>

definition py_int :: "string \<Rightarrow> int option" where
  "py_int s =
     (case s of
        [] \<Rightarrow> None
      | c # cs \<Rightarrow>
          if c = CHR ''-'' then (if cs = [] then None else map_option uminus (digits_val 0 cs))
          else if c = CHR ''+'' then (if cs = [] then None else digits_val 0 cs)
          else digits_val 0 s)"

definition daynames :: "string list" where
  "daynames = [''mon'', ''tue'', ''wed'', ''thu'', ''fri'', ''sat'', ''sun'']"

definition monthnames :: "string list" where
  "monthnames = [''jan'', ''feb'', ''mar'', ''apr'', ''may'', ''jun'',
                 ''jul'', ''aug'', ''sep'', ''oct'', ''nov'', ''dec'',
                 ''january'', ''february'', ''march'', ''april'', ''may'', ''june'',
                 ''july'', ''august'', ''september'', ''october'', ''november'', ''december'']"

definition timezones :: "(string \<times> int) list" where
  "timezones = [(''UT'', 0), (''UTC'', 0), (''GMT'', 0), (''Z'', 0),
                (''AST'', - 400), (''ADT'', - 300), (''EST'', - 500), (''EDT'', - 400),
                (''CST'', - 600), (''CDT'', - 500), (''MST'', - 700), (''MDT'', - 600),
                (''PST'', - 800), (''PDT'', - 700)]"

definition upper_char :: "char \<Rightarrow> char" where
  "upper_char c =
     (case map_of (zip ''abcdefghijklmnopqrstuvwxyz'' ''ABCDEFGHIJKLMNOPQRSTUVWXYZ'') c of
        None \<Rightarrow> c
      | Some u \<Rightarrow> u)"

fun index_of :: "'a \<Rightarrow> 'a list \<Rightarrow> nat option" where
  "index_of x [] = None"
| "index_of x (y # ys) = (if x = y then Some 0 else map_option Suc (index_of x ys))"

text \<open>The first word: a name of a day goes, and so does what stands before a comma.\<close>

definition drop_dayname :: "string list \<Rightarrow> string list" where
  "drop_dayname data =
     (case data of
        [] \<Rightarrow> []
      | w # ws \<Rightarrow>
          if w \<noteq> [] \<and> (last w = CHR '','' \<or> lower w \<in> set daynames) then ws
          else if CHR '','' \<in> set w then rev (takeWhile (\<lambda>c. c \<noteq> CHR '','') (rev w)) # ws
          else data)"

text \<open>The date \<^verbatim>\<open>31-Dec-2037\<close> of RFC 850 is three words.\<close>

definition split_rfc850 :: "string list \<Rightarrow> string list" where
  "split_rfc850 data =
     (case data of
        [dmy, tm, tz] \<Rightarrow>
          (case split_on CHR ''-'' dmy of [a, b, c] \<Rightarrow> [a, b, c, tm, tz] | _ \<Rightarrow> data)
      | _ \<Rightarrow> data)"

text \<open>With four words the zone is cut off the time at a plus sign, or is empty.\<close>

definition add_zone :: "string list \<Rightarrow> string list" where
  "add_zone data =
     (case data of
        [a, b, c, s] \<Rightarrow>
          if CHR ''+'' \<in> set s \<and> hd s \<noteq> CHR ''+''
          then [a, b, c, takeWhile (\<lambda>x. x \<noteq> CHR ''+'') s,
                drop 1 (dropWhile (\<lambda>x. x \<noteq> CHR ''+'') s)]
          else [a, b, c, s, []]
      | _ \<Rightarrow> data)"

definition zone_offset :: "string \<Rightarrow> int option" where
  "zone_offset tz =
     (case (case map_of timezones (map upper_char tz) of
              Some z \<Rightarrow> Some z
            | None \<Rightarrow> py_int (map upper_char tz)) of
        None \<Rightarrow> None
      | Some z \<Rightarrow> Some (sgn z * ((\<bar>z\<bar> div 100) * 3600 + (\<bar>z\<bar> mod 100) * 60)))"

definition is_digit :: "char \<Rightarrow> bool" where
  "is_digit c = (digit_val c \<noteq> None)"

text \<open>The numbers of the five words, once they are in their places.\<close>

definition date_numbers ::
  "string \<Rightarrow> nat \<Rightarrow> string \<Rightarrow> string \<Rightarrow> string \<Rightarrow> time_tuple option" where
  "date_numbers dd m yy tm tz =
     (case map py_int (split_on CHR '':'' tm) of
        [Some hh, Some mi] \<Rightarrow>
          (case (py_int yy, py_int dd) of
             (Some y, Some d) \<Rightarrow>
               Some (if y < 100 then (if 68 < y then y + 1900 else y + 2000) else y,
                     int m, d, hh, mi, 0, zone_offset tz)
           | _ \<Rightarrow> None)
      | [Some hh, Some mi, Some ss] \<Rightarrow>
          (case (py_int yy, py_int dd) of
             (Some y, Some d) \<Rightarrow>
               Some (if y < 100 then (if 68 < y then y + 1900 else y + 2000) else y,
                     int m, d, hh, mi, ss, zone_offset tz)
           | _ \<Rightarrow> None)
      | _ \<Rightarrow> None)"

definition strip_comma :: "string \<Rightarrow> string" where
  "strip_comma s = (if last s = CHR '','' then butlast s else s)"

text \<open>
  The five words day, month, year, time, zone: day and month may be swapped, year and time
  may be swapped, and a year that does not start with a digit is the zone.
\<close>

definition date_fields ::
  "string \<Rightarrow> string \<Rightarrow> string \<Rightarrow> string \<Rightarrow> string \<Rightarrow> error + time_tuple option" where
  "date_fields dd0 mm0 yy0 tm0 tz0 =
     (let (dd1, mm1) = (if lower mm0 \<in> set monthnames then (dd0, lower mm0)
                        else (lower mm0, lower dd0))
      in case index_of mm1 monthnames of
           None \<Rightarrow> Inr None
         | Some ix \<Rightarrow>
             if dd1 = [] then Inl IndexError
             else
               (let dd = strip_comma dd1;
                    (yy1, tm1) = (if CHR '':'' \<in> set yy0 \<and> hd yy0 \<noteq> CHR '':''
                                  then (tm0, yy0) else (yy0, tm0))
                in if yy1 = [] then Inl IndexError
                   else
                     (let yy2 = strip_comma yy1
                      in if yy2 = [] then Inl IndexError
                         else
                           (let (yy, tz) = (if is_digit (hd yy2) then (yy2, tz0) else (tz0, yy2))
                            in if tm1 = [] then Inl IndexError
                               else Inr (date_numbers dd (if 12 \<le> ix then ix - 11 else ix + 1)
                                           yy (strip_comma tm1) tz)))))"

definition sample_parsedate_tz :: "string \<Rightarrow> error + time_tuple option" where
  "sample_parsedate_tz s =
     (if s = [] then Inr None
      else if split_words s = [] then Inl IndexError
      else (case take 5 (add_zone (split_rfc850 (drop_dayname (split_words s)))) of
              [dd, mm, yy, tm, tz] \<Rightarrow> date_fields dd mm yy tm tz
            | _ \<Rightarrow> Inr None))"

text \<open>
  Days since 1 January 1970 of a date of the Gregorian calendar, and back.
\<close>

definition days_from_civil :: "int \<Rightarrow> int \<Rightarrow> int \<Rightarrow> int" where
  "days_from_civil y m d =
     (let y' = (if m \<le> 2 then y - 1 else y);
          era = y' div 400;
          yoe = y' - era * 400;
          doy = (153 * (if m > 2 then m - 3 else m + 9) + 2) div 5 + d - 1;
          doe = yoe * 365 + yoe div 4 - yoe div 100 + doy
      in era * 146097 + doe - 719468)"

definition civil_from_days :: "int \<Rightarrow> int \<times> int \<times> int" where
  "civil_from_days z0 =
     (let z = z0 + 719468;
          era = z div 146097;
          doe = z - era * 146097;
          yoe = (doe - doe div 1460 + doe div 36524 - doe div 146096) div 365;
          doy = doe - (365 * yoe + yoe div 4 - yoe div 100);
          mp = (5 * doy + 2) div 153;
          d = doy - (153 * mp + 2) div 5 + 1;
          m = (if mp < 10 then mp + 3 else mp - 9);
          y = yoe + era * 400
      in (if m \<le> 2 then y + 1 else y, m, d))"

text \<open>
  \<open>sample_mktime_tz\<close>: the seconds of the date as \<^verbatim>\<open>calendar.timegm\<close> counts them, less
  the zone offset. A year outside 1 to 9999 raises \<^verbatim>\<open>ValueError\<close>. A date without zone is
  local time for Python; here the local zone is UTC.
\<close>

definition sample_mktime_tz :: "time_tuple \<Rightarrow> error + rat" where
  "sample_mktime_tz t =
     (case t of
        (y, m, d, hh, mi, ss, tz) \<Rightarrow>
          if y < 1 \<or> 9999 < y then Inl ValueError
          else Inr (of_int ((days_from_civil y m 1 + d - 1) * 86400 + hh * 3600 + mi * 60 + ss
                            - (case tz of None \<Rightarrow> 0 | Some off \<Rightarrow> off))))"

definition pad2 :: "int \<Rightarrow> string" where
  "pad2 n = [''0123456789'' ! nat (n div 10 mod 10), ''0123456789'' ! nat (n mod 10)]"

definition pad4 :: "int \<Rightarrow> string" where
  "pad4 n = pad2 (n div 100) @ pad2 (n mod 100)"

text \<open>
  \<open>sample_formatdate\<close> prints the whole seconds of a time in UTC in the format of
  \<^verbatim>\<open>email.utils.formatdate\<close>; the fraction is cut off. A time outside the years 1 to 9999
  raises \<^verbatim>\<open>ValueError\<close>.
\<close>

definition sample_formatdate :: "rat \<Rightarrow> error + string" where
  "sample_formatdate t =
     (let secs = (if 0 \<le> t then \<lfloor>t\<rfloor> else \<lceil>t\<rceil>);
          days = secs div 86400;
          rest = secs mod 86400
      in case civil_from_days days of
           (y, m, d) \<Rightarrow>
             if y < 1 \<or> 9999 < y then Inl ValueError
             else Inr
               ([''Mon'', ''Tue'', ''Wed'', ''Thu'', ''Fri'', ''Sat'', ''Sun'']
                  ! nat ((days + 3) mod 7)
                @ '', '' @ pad2 d @ '' ''
                @ [''Jan'', ''Feb'', ''Mar'', ''Apr'', ''May'', ''Jun'',
                   ''Jul'', ''Aug'', ''Sep'', ''Oct'', ''Nov'', ''Dec''] ! nat (m - 1)
                @ '' '' @ pad4 y @ '' '' @ pad2 (rest div 3600) @ '':''
                @ pad2 (rest mod 3600 div 60) @ '':'' @ pad2 (rest mod 60) @ '' -0000''))"

definition sample_stdlib :: stdlib where
  "sample_stdlib =
     \<lparr>parsedate_tz = sample_parsedate_tz, mktime_tz = sample_mktime_tz,
      formatdate = sample_formatdate, time_time = 1446624000,
      float_sub = sample_float_sub, float_add = sample_float_add\<rparr>"

subsection \<open>A cookie library\<close>

text \<open>
  The parts of a header value are separated by semicolons. A part \<^verbatim>\<open>name=value\<close> whose
  name is reserved is an attribute of the cookie before it, a flag such as \<^verbatim>\<open>secure\<close>
  needs no value, and any other \<^verbatim>\<open>name=value\<close> starts a new cookie; a name with an illegal
  character raises \<^verbatim>\<open>CookieError\<close>. As in \<^verbatim>\<open>Cookie.Morsel\<close>, every reserved attribute is
  present from the start with the empty string as its value. Printing sorts the cookies by
  name, leaves out the attributes whose value is empty and puts each cookie on a line.
  Escapes inside quoted values are left out, and an attribute value reaches to the next
  semicolon.
\<close>

definition reserved :: "(string \<times> string) list" where
  "reserved = [(''comment'', ''Comment''), (''domain'', ''Domain''), (''expires'', ''expires''),
               (''httponly'', ''httponly''), (''max-age'', ''Max-Age''), (''path'', ''Path''),
               (''secure'', ''secure''), (''version'', ''Version'')]"

definition legal_chars :: string where
  "legal_chars = ''abcdefghijklmnopqrstuvwxyzABCDEFGHIJKLMNOPQRSTUVWXYZ0123456789''
                 @ [CHR ''!'', CHR ''#'', CHR ''$'', CHR ''%'', CHR ''&'', CHR 0x27, CHR ''*'',
                    CHR ''+'', CHR ''-'', CHR ''.'', CHR ''^'', CHR ''_'', CHR 0x60, CHR ''|'',
                    CHR ''~'']"

definition split_eq :: "string \<Rightarrow> string \<times> string" where
  "split_eq s = (takeWhile (\<lambda>c. c \<noteq> CHR ''='') s, drop 1 (dropWhile (\<lambda>c. c \<noteq> CHR ''='') s))"

definition unquote :: "string \<Rightarrow> string" where
  "unquote v =
     (if 2 \<le> length v \<and> hd v = CHR 0x22 \<and> last v = CHR 0x22 then butlast (tl v) else v)"

definition new_morsel :: "string \<Rightarrow> string \<Rightarrow> morsel" where
  "new_morsel k v =
     \<lparr>key = k, val = unquote v, coded_value = v,
      attrs = map (\<lambda>r. (fst r, [])) reserved\<rparr>"

text \<open>
  The parts in turn; the cookies read so far are kept with the latest in front, and the
  result has them in the order of the text.
\<close>

fun parse_parts :: "string list \<Rightarrow> morsel list \<Rightarrow> error + morsel list" where
  "parse_parts [] acc = Inr (rev acc)"
| "parse_parts (t # ts) acc =
     (if lower (fst (split_eq t)) \<in> set (map fst reserved) then
        (case acc of
           [] \<Rightarrow> parse_parts ts acc
         | m # ms \<Rightarrow>
             if CHR ''='' \<in> set t
             then parse_parts ts
                    (m\<lparr>attrs := AList.update (lower (fst (split_eq t))) (unquote (snd (split_eq t)))
                                 (attrs m)\<rparr> # ms)
             else if lower t \<in> set [''secure'', ''httponly'']
             then parse_parts ts (m\<lparr>attrs := AList.update (lower t) ''True'' (attrs m)\<rparr> # ms)
             else parse_parts ts acc)
      else if CHR ''='' \<notin> set t \<or> take 1 t = ''$'' then parse_parts ts acc
      else if fst (split_eq t) = [] \<or> \<not> set (fst (split_eq t)) \<subseteq> set legal_chars
      then Inl CookieError
      else parse_parts ts (new_morsel (fst (split_eq t)) (snd (split_eq t)) # acc))"

definition sample_SimpleCookie :: "string \<Rightarrow> error + morsel list" where
  "sample_SimpleCookie s = parse_parts (map strip (split_on CHR '';'' s)) []"

definition output_string :: "morsel \<Rightarrow> string" where
  "output_string m =
     key m @ ''='' @ coded_value m
     @ concat (map (\<lambda>r. case map_of (attrs m) (fst r) of
                           None \<Rightarrow> []
                         | Some v \<Rightarrow>
                             if v = [] then []
                             else if fst r = ''secure'' \<or> fst r = ''httponly'' then ''; '' @ snd r
                             else ''; '' @ snd r @ ''='' @ v) reserved)"

fun str_le :: "string \<Rightarrow> string \<Rightarrow> bool" where
  "str_le [] b = True"
| "str_le (x # a) [] = False"
| "str_le (x # a) (y # b) =
     ((of_char x :: nat) < of_char y \<or> ((of_char x :: nat) = of_char y \<and> str_le a b))"

fun insert_by_key :: "morsel \<Rightarrow> morsel list \<Rightarrow> morsel list" where
  "insert_by_key m [] = [m]"
| "insert_by_key m (n # ns) =
     (if str_le (key m) (key n) then m # n # ns else n # insert_by_key m ns)"

definition sort_by_key :: "morsel list \<Rightarrow> morsel list" where
  "sort_by_key ms = foldr insert_by_key ms []"

fun join_lines :: "string list \<Rightarrow> string" where
  "join_lines [] = []"
| "join_lines [l] = l"
| "join_lines (l # ls) = l @ [CHR 0x0D, CHR 0x0A] @ join_lines ls"

definition sample_output :: "morsel list \<Rightarrow> error + string" where
  "sample_output ms = Inr (join_lines (map (\<lambda>m. '' '' @ output_string m) (sort_by_key ms)))"

definition sample_cookielib :: cookielib where
  "sample_cookielib = \<lparr>SimpleCookie = sample_SimpleCookie, cookie_output = sample_output\<rparr>"

subsection \<open>Sample messages\<close>

definition msg_gz :: message where
  "msg_gz = \<lparr>httpversion = Some (1, 1),
            headers = [(''Host'', ''example.com''), (''Content-Encoding'', ''gzip'')],
            body = Str ''GZ:banana'', timestamp_start = None, timestamp_end = None\<rparr>"

definition msg_bad :: message where
  "msg_bad = \<lparr>httpversion = Some (1, 1),
            headers = [(''Host'', ''example.com''), (''Content-Encoding'', ''gzip'')],
            body = Str ''banana'', timestamp_start = None, timestamp_end = None\<rparr>"

definition msg_plain :: message where
  "msg_plain = \<lparr>httpversion = Some (1, 1),
            headers = [(''Host'', ''example.com'')],
            body = Str ''banana'', timestamp_start = None, timestamp_end = None\<rparr>"

text \<open>A block that changes the body and then raises.\<close>

definition raising_block :: "message \<Rightarrow> message \<times> (error + nat)" where
  "raising_block m = (m\<lparr>body := Str ''apple''\<rparr>, Inl ValueError)"

text \<open>Messages with each kind of body.\<close>

definition msg_nobody :: message where
  "msg_nobody = \<lparr>httpversion = Some (1, 1), headers = [(''Host'', ''example.com'')],
                 body = PyNone, timestamp_start = Some 1000, timestamp_end = None\<rparr>"

definition msg_missing :: message where
  "msg_missing = \<lparr>httpversion = Some (1, 1), headers = [(''Host'', ''example.com'')],
                  body = CONTENT_MISSING, timestamp_start = Some 1000, timestamp_end = None\<rparr>"

definition msg_empty :: message where
  "msg_empty = \<lparr>httpversion = Some (1, 1), headers = [(''Host'', ''example.com'')],
                body = Str [], timestamp_start = Some 1000, timestamp_end = None\<rparr>"

definition msg_ten :: message where
  "msg_ten = \<lparr>httpversion = Some (1, 1), headers = [(''Host'', ''example.com'')],
              body = Str ''0123456789'', timestamp_start = Some 1000, timestamp_end = None\<rparr>"

subsection \<open>Counting substitutions\<close>

text \<open>
  The number of substitutions the helper makes in a target, and the text it leaves; both
  are only meaningful where the helper returns.
\<close>

definition count_in :: "subst \<Rightarrow> pystr \<Rightarrow> nat" where
  "count_in sb t = (case safe_subn sb t of Inl err \<Rightarrow> 0 | Inr (t', c) \<Rightarrow> c)"

definition subst_in :: "subst \<Rightarrow> pystr \<Rightarrow> pystr" where
  "subst_in sb t = (case safe_subn sb t of Inl err \<Rightarrow> t | Inr (t', c) \<Rightarrow> t')"

definition subst_text :: "subst \<Rightarrow> string \<Rightarrow> string" where
  "subst_text sb v = (case subn sb v of Inl err \<Rightarrow> v | Inr (v', c) \<Rightarrow> v')"

text \<open>A request with an encoded body.\<close>

definition req_gz :: request where
  "req_gz = \<lparr>httpversion = Some (1, 1),
             headers = [(''Host'', ''example.com''), (''Content-Encoding'', ''gzip'')],
             body = Str ''GZ:banana'', timestamp_start = Some 1000, timestamp_end = Some 1001,
             form_in = Some ''relative'', http_method = Some ''POST'', scheme = Some ''http'',
             host = Some ''example.com'', port = Some 80, path = Str ''/data'',
             form_out = Some ''relative'', stickycookie = False, stickyauth = False,
             is_replay = False\<rparr>"

text \<open>
  A filter engine that knows two expressions, \<^verbatim>\<open>~q\<close> (a request without response) and
  \<^verbatim>\<open>~s\<close> (a flow with a response), and rejects every other text; and a flow that has a
  request and no response.
\<close>

definition sample_filt_parse :: "string \<Rightarrow> (flow_obj \<Rightarrow> bool) option" where
  "sample_filt_parse s =
     (if s = ''~q'' then Some (\<lambda>fl. f_response fl = None)
      else if s = ''~s'' then Some (\<lambda>fl. f_response fl \<noteq> None)
      else None)"

definition sample_flow :: flow_obj where
  "sample_flow = \<lparr>f_request = Some 1, f_response = None, f_error = None,
                   f_client_conn = Some 2, f_server_conn = Some 3,
                   f_live = False, f_intercepted = False\<rparr>"

section \<open>Notions for the properties of \<^verbatim>\<open>refresh\<close>\<close>

subsection \<open>Reading a date back\<close>

text \<open>
  The instant that a date text stands for: \<^verbatim>\<open>mktime_tz(parsedate_tz(text))\<close>, when the text
  parses and both calls return.
\<close>

definition instant_of :: "stdlib \<Rightarrow> string \<Rightarrow> rat option" where
  "instant_of lib s =
     (case parsedate_tz lib s of
        Inr (Some d) \<Rightarrow> (case mktime_tz lib d of Inr t \<Rightarrow> Some t | Inl err \<Rightarrow> None)
      | _ \<Rightarrow> None)"

text \<open>
  The library's round trip at the time \<open>x\<close>: the time is printed, and the text printed
  stands for the whole seconds of \<open>x\<close>.
\<close>

definition whole_seconds :: "stdlib \<Rightarrow> rat \<Rightarrow> bool" where
  "whole_seconds lib x =
     (case formatdate lib x of
        Inl err \<Rightarrow> False
      | Inr s \<Rightarrow> instant_of lib s = Some (of_int \<lfloor>x\<rfloor>))"

text \<open>
  What one round of the loop over \<^verbatim>\<open>refresh_headers\<close> makes of the values \<open>vs\<close> of its
  name: the first value decides; a date that parses is shifted, printed and replaces all
  the values; otherwise the values stay.
\<close>

definition refreshed_to :: "stdlib \<Rightarrow> rat \<Rightarrow> string list \<Rightarrow> string list \<Rightarrow> bool" where
  "refreshed_to lib delta vs vs' =
     (case vs of
        [] \<Rightarrow> vs' = []
      | v # _ \<Rightarrow>
          (case parsedate_tz lib v of
             Inl err \<Rightarrow> False
           | Inr None \<Rightarrow> vs' = vs
           | Inr (Some d) \<Rightarrow> shifted_date lib delta d = Inr (hd vs') \<and> vs' = [hd vs']))"

text \<open>
  The value of an attribute of a morsel as printing sees it: an attribute that is absent
  counts as empty, since neither is printed. Two morsels are the same cookie when they
  agree in key, value, coded value and the values of all attributes.
\<close>

definition attr_value :: "morsel \<Rightarrow> string \<Rightarrow> string" where
  "attr_value m a = (case map_of (attrs m) a of None \<Rightarrow> [] | Some v \<Rightarrow> v)"

definition same_cookie :: "morsel \<Rightarrow> morsel \<Rightarrow> bool" where
  "same_cookie m m' =
     (key m' = key m \<and> val m' = val m \<and> coded_value m' = coded_value m
      \<and> (\<forall>a. attr_value m' a = attr_value m a))"

text \<open>
  The morsel \<open>i'\<close> is the morsel \<open>i\<close> with its expiry refreshed: key, value, coded value and
  every attribute but \<^verbatim>\<open>expires\<close> are the same; an \<^verbatim>\<open>expires\<close> that parses to the instant
  \<open>t\<close> has become the text printed for \<open>t + delta\<close>, the sum being the float sum; an
  \<^verbatim>\<open>expires\<close> that does not parse has become empty.
\<close>

definition refreshed_morsel :: "stdlib \<Rightarrow> rat \<Rightarrow> morsel \<Rightarrow> morsel \<Rightarrow> bool" where
  "refreshed_morsel lib delta i i' =
     (key i' = key i \<and> val i' = val i \<and> coded_value i' = coded_value i
      \<and> (\<forall>a. a \<noteq> ''expires'' \<longrightarrow> attr_value i' a = attr_value i a)
      \<and> (case map_of (attrs i) ''expires'' of
            None \<Rightarrow> attr_value i' ''expires'' = []
          | Some e \<Rightarrow>
              (case parsedate_tz lib e of
                 Inl err \<Rightarrow> False
               | Inr None \<Rightarrow> attr_value i' ''expires'' = []
               | Inr (Some d) \<Rightarrow>
                   (case mktime_tz lib d of
                      Inl err \<Rightarrow> False
                    | Inr t \<Rightarrow>
                        (case formatdate lib (float_add lib t delta) of
                           Inl err \<Rightarrow> False
                         | Inr s \<Rightarrow> attr_value i' ''expires'' = s)))))"




text \<open>
  Responses: one whose transmission started at a whole second and one that started half a
  second later, both with a date header for the instant 1000 and two cookies; one that
  was never transmitted; one without cookies; one with a cookie that has an illegal name;
  one with a cookie that expires and, after it, a cookie that has an illegal name.
\<close>

definition resp_whole :: response where
  "resp_whole = \<lparr>httpversion = Some (1, 1),
                 headers = [(''Date'', ''Thu, 01 Jan 1970 00:16:40 GMT''),
                            (''Expires'', ''never''),
                            (''Set-Cookie'', ''sid=abc; expires=Thu, 31-Dec-2037 23:59:59 GMT''),
                            (''Set-Cookie'', ''tok=x; expires=soon; Path=/; secure'')],
                 body = Str ''hello'', timestamp_start = Some 1000, timestamp_end = Some 1001,
                 status_code = Some 200, msg = Some ''OK'', resp_is_replay = False,
                 stream = False\<rparr>"

definition resp_frac :: response where
  "resp_frac = resp_whole\<lparr>timestamp_start := Some (2001 / 2)\<rparr>"

definition resp_unsent :: response where
  "resp_unsent = resp_whole\<lparr>timestamp_start := None\<rparr>"


definition resp_badcookie :: response where
  "resp_badcookie = resp_whole\<lparr>headers := [(''Date'', ''Thu, 01 Jan 1970 00:16:40 GMT''),
                                            (''Set-Cookie'', ''sid=abc''),
                                            (''Set-Cookie'', ''a,b=c'')]\<rparr>"


text \<open>The exception \<open>e\<close> is one that a call of the libraries raises on some argument.\<close>

definition raised_by :: "stdlib \<Rightarrow> cookielib \<Rightarrow> error \<Rightarrow> bool" where
  "raised_by lib ck e =
     ((\<exists>s. parsedate_tz lib s = Inl e) \<or> (\<exists>d. mktime_tz lib d = Inl e)
      \<or> (\<exists>t. formatdate lib t = Inl e) \<or> (\<exists>s. SimpleCookie ck s = Inl e)
      \<or> (\<exists>ms. cookie_output ck ms = Inl e))"

section \<open>Notions for the properties of \<^verbatim>\<open>HTTPFlow.copy\<close>\<close>

subsection \<open>Stores and independent copies\<close>

text \<open>
  A store is well formed when no object lives at or beyond the next free reference, and a
  reference to a message is valid when the message and its headers object exist.
\<close>

definition fresh_from :: "store \<Rightarrow> bool" where
  "fresh_from s =
     (\<forall>a. next_ref s \<le> a \<longrightarrow> odicts s a = None \<and> messages s a = None \<and> flows s a = None)"

definition valid_message :: "store \<Rightarrow> ref option \<Rightarrow> bool" where
  "valid_message s r =
     (case r of
        None \<Rightarrow> True
      | Some a \<Rightarrow> (case messages s a of None \<Rightarrow> False | Some ro \<Rightarrow> odicts s (obj_headers ro) \<noteq> None))"

text \<open>
  Any change made in place to a headers object: the object at the reference gets new
  entries.
\<close>

definition odict_assign :: "store \<Rightarrow> ref \<Rightarrow> headers \<Rightarrow> store" where
  "odict_assign s a hs = s\<lparr>odicts := (odicts s)(a \<mapsto> hs)\<rparr>"

text \<open>
  The message \<open>new\<close> of the store \<open>s'\<close> is an independent copy of the message \<open>old\<close> of the
  store \<open>s\<close>: both are absent, or \<open>new\<close> is another object with the same body and another
  headers object with the same entries, the old objects are as they were, and a change to
  the headers of \<open>new\<close> leaves the headers of \<open>old\<close> alone.
\<close>

definition independent :: "store \<Rightarrow> store \<Rightarrow> ref option \<Rightarrow> ref option \<Rightarrow> bool" where
  "independent s s' old new =
     (case old of
        None \<Rightarrow> new = None
      | Some a \<Rightarrow>
          (\<exists>ro c co. messages s a = Some ro \<and> new = Some c \<and> c \<noteq> a
             \<and> messages s' a = Some ro \<and> messages s' c = Some co
             \<and> obj_body co = obj_body ro
             \<and> obj_headers co \<noteq> obj_headers ro
             \<and> odicts s' (obj_headers ro) = odicts s (obj_headers ro)
             \<and> odicts s' (obj_headers co) = odicts s (obj_headers ro)
             \<and> (\<forall>hs. odicts (odict_assign s' (obj_headers co) hs) (obj_headers ro)
                        = odicts s (obj_headers ro))))"

text \<open>A store with the sample flow, its request and the headers of the request.\<close>

definition sample_store :: store where
  "sample_store =
     \<lparr>odicts = [10 \<mapsto> [(''Host'', ''example.com'')]],
      messages = [1 \<mapsto> \<lparr>obj_headers = 10, obj_body = Str []\<rparr>],
      flows = [0 \<mapsto> sample_flow],
      next_ref = 11\<rparr>"

section \<open>Properties\<close>

subsection \<open>Facts about the headers and the encodings\<close>

lemma same_key_refl: "same_key k k"
  by (simp add: same_key_def)

lemma same_key_sym: "same_key k k' = same_key k' k"
  by (auto simp: same_key_def)

lemma odict_get_del_same: "odict_get k (odict_del k h) = []"
  by (induction h) (auto simp: odict_get_def odict_del_def)

lemma odict_get_del_other:
  "\<not> same_key k k' \<Longrightarrow> odict_get k' (odict_del k h) = odict_get k' h"
  by (induction h) (auto simp: odict_get_def odict_del_def same_key_def)

lemma odict_get_set_same: "odict_get k (odict_set k vs h) = vs"
  by (simp add: odict_set_def odict_get_def same_key_refl o_def
        odict_get_del_same [unfolded odict_get_def])

lemma odict_get_set_other:
  "\<not> same_key k k' \<Longrightarrow> odict_get k' (odict_set k vs h) = odict_get k' h"
  using odict_get_del_other [of k k' h]
  by (auto simp: odict_set_def odict_get_def same_key_def o_def)

lemma odict_in_get: "odict_in k h = (odict_get k h \<noteq> [])"
  by (induction h) (auto simp: odict_in_def odict_get_def)

lemma in_ENCODINGS_truthy: "in_ENCODINGS ce \<Longrightarrow> ce_truthy ce"
  by (cases ce) (auto simp: ENCODINGS_def)

lemma decoded_init_Some:
  "in_ENCODINGS (get_first ''content-encoding'' (headers m)) \<Longrightarrow>
   decoded_init m = get_first ''content-encoding'' (headers m)"
  by (simp add: decoded_init_def)

lemma decoded_init_None:
  "\<not> in_ENCODINGS (get_first ''content-encoding'' (headers m)) \<Longrightarrow> decoded_init m = None"
  by (simp add: decoded_init_def)

lemma decode_unsupported:
  "\<not> in_ENCODINGS (get_first ''content-encoding'' (headers m)) \<Longrightarrow> decode cd m = (m, False)"
  by (simp add: decode_def)

lemma decode_False_unchanged: "snd (decode cd m) = False \<Longrightarrow> fst (decode cd m) = m"
  by (auto simp: decode_def Let_def split: option.splits pystr.splits if_splits)

subsection \<open>\<^verbatim>\<open>decode\<close>\<close>

text \<open>
  C4. \<^verbatim>\<open>decode()\<close> returns \<^verbatim>\<open>False\<close> whenever the body is empty or missing, the first
  content-encoding value is not a supported encoding, or the codec fails on the body, and
  whenever it returns \<^verbatim>\<open>False\<close> the message is exactly as before. Otherwise it returns
  \<^verbatim>\<open>True\<close>, the body is the decoded data, and no content-encoding header is left while
  the values of every other header are as before.
\<close>

theorem decode_outcome:
  fixes m :: "'a message_scheme"
  defines "ce \<equiv> get_first ''content-encoding'' (headers m)"
  shows "(\<not> truthy (body m) \<or> \<not> in_ENCODINGS ce
            \<or> (\<exists>e b. ce = Some e \<and> body m = Str b \<and> encoding_decode cd e b = None)
          \<longrightarrow> decode cd m = (m, False))
       \<and> (\<not> snd (decode cd m) \<longrightarrow> fst (decode cd m) = m)
       \<and> (\<forall>e b data. truthy (body m) \<and> in_ENCODINGS ce \<and> ce = Some e \<and> body m = Str b
              \<and> encoding_decode cd e b = Some data
            \<longrightarrow> decode cd m =
                  (m\<lparr>body := Str data, headers := odict_del ''content-encoding'' (headers m)\<rparr>, True)
                \<and> odict_get ''content-encoding'' (headers (fst (decode cd m))) = []
                \<and> \<not> odict_in ''content-encoding'' (headers (fst (decode cd m)))
                \<and> (\<forall>k. \<not> same_key ''content-encoding'' k
                      \<longrightarrow> odict_get k (headers (fst (decode cd m))) = odict_get k (headers m)))"
proof (intro conjI)
  show "\<not> truthy (body m) \<or> \<not> in_ENCODINGS ce
            \<or> (\<exists>e b. ce = Some e \<and> body m = Str b \<and> encoding_decode cd e b = None)
          \<longrightarrow> decode cd m = (m, False)"
    by (auto simp: decode_def ce_def)
  show "\<not> snd (decode cd m) \<longrightarrow> fst (decode cd m) = m"
    using decode_False_unchanged [of cd m] by simp
  show "\<forall>e b data. truthy (body m) \<and> in_ENCODINGS ce \<and> ce = Some e \<and> body m = Str b
              \<and> encoding_decode cd e b = Some data
            \<longrightarrow> decode cd m =
                  (m\<lparr>body := Str data, headers := odict_del ''content-encoding'' (headers m)\<rparr>, True)
                \<and> odict_get ''content-encoding'' (headers (fst (decode cd m))) = []
                \<and> \<not> odict_in ''content-encoding'' (headers (fst (decode cd m)))
                \<and> (\<forall>k. \<not> same_key ''content-encoding'' k
                      \<longrightarrow> odict_get k (headers (fst (decode cd m))) = odict_get k (headers m))"
    by (auto simp: decode_def ce_def odict_get_del_same odict_get_del_other odict_in_get)
qed

theorem decode_outcome_witness:
  "decode sample_codec msg_gz =
     (msg_gz\<lparr>body := Str ''banana'', headers := [(''Host'', ''example.com'')]\<rparr>, True)
   \<and> decode sample_codec msg_bad = (msg_bad, False)
   \<and> decode sample_codec msg_plain = (msg_plain, False)"
proof -
  have ce: "get_first ''content-encoding'' (headers msg_gz) = Some ''gzip''"
           "get_first ''content-encoding'' (headers msg_bad) = Some ''gzip''"
           "get_first ''content-encoding'' (headers msg_plain) = None"
    by (simp_all add: msg_gz_def msg_bad_def msg_plain_def get_first_def odict_get_def same_key_def lower_def lower_char_def)
  have dec: "encoding_decode sample_codec ''gzip'' ''GZ:banana'' = Some ''banana''"
            "encoding_decode sample_codec ''gzip'' ''banana'' = None"
    by (simp_all add: sample_codec_def sample_decode_def)
  have del: "odict_del ''content-encoding'' (headers msg_gz) = [(''Host'', ''example.com'')]"
    by (simp add: msg_gz_def odict_del_def same_key_def lower_def lower_char_def)
  have b: "body msg_gz = Str ''GZ:banana''" "body msg_bad = Str ''banana''"
    by (simp_all add: msg_gz_def msg_bad_def)
  show ?thesis
    using decode_outcome [of msg_gz sample_codec] decode_outcome [of msg_bad sample_codec]
      decode_outcome [of msg_plain sample_codec] ce dec del b
    by (simp add: ENCODINGS_def)
qed

subsection \<open>Evaluation of the sample messages\<close>

lemma msg_fields:
  "headers msg_gz = [(''Host'', ''example.com''), (''Content-Encoding'', ''gzip'')]"
  "body msg_gz = Str ''GZ:banana''"
  "headers msg_bad = [(''Host'', ''example.com''), (''Content-Encoding'', ''gzip'')]"
  "body msg_bad = Str ''banana''"
  "headers msg_plain = [(''Host'', ''example.com'')]"
  "body msg_plain = Str ''banana''"
  by (simp_all add: msg_gz_def msg_bad_def msg_plain_def)

lemma key_eval:
  "same_key ''content-encoding'' ''Content-Encoding''"
  "\<not> same_key ''content-encoding'' ''Host''"
  by (simp_all add: same_key_def lower_def lower_char_def)

lemma hdr_eval:
  "get_first ''content-encoding'' (headers msg_gz) = Some ''gzip''"
  "get_first ''content-encoding'' (headers msg_bad) = Some ''gzip''"
  "get_first ''content-encoding'' (headers msg_plain) = None"
  by (simp_all add: msg_gz_def msg_bad_def msg_plain_def get_first_def odict_get_def
        same_key_def lower_def lower_char_def)

subsection \<open>The context manager\<close>

text \<open>
  C1. When the first content-encoding value on entry is a supported encoding \<open>e\<close>, the
  helper remembers \<open>e\<close>, \<^verbatim>\<open>__enter__\<close> is \<^verbatim>\<open>decode\<close>, \<^verbatim>\<open>__exit__\<close> is \<^verbatim>\<open>encode(e)\<close>, and
  the whole statement is: decode, run the block, encode with \<open>e\<close> the message the block
  left, whether the block returned or raised and whether or not the decoding on entry
  succeeded (after a failed decoding the block runs on the unchanged message). When no
  supported encoding is named, entry and exit change nothing and the statement is the
  block alone.
\<close>

theorem decoded_reencodes:
  fixes m :: "'a message_scheme"
    and block :: "'a message_scheme \<Rightarrow> 'a message_scheme \<times> (error + 'r)"
  defines "ce \<equiv> get_first ''content-encoding'' (headers m)"
  shows "(in_ENCODINGS ce \<longrightarrow>
            (\<exists>e. ce = Some e \<and> decoded_init m = Some e
               \<and> decoded_enter cd (decoded_init m) m = fst (decode cd m)
               \<and> (\<forall>m2. decoded_exit cd (decoded_init m) m2 = encode cd e m2)
               \<and> with_decoded cd m block =
                   (case block (fst (decode cd m)) of
                      (m2, r) \<Rightarrow>
                        (case encode cd e m2 of
                           (m3, Inl err) \<Rightarrow> (m3, Inl err)
                         | (m3, Inr u) \<Rightarrow> (m3, r)))
               \<and> (\<not> snd (decode cd m) \<longrightarrow>
                    with_decoded cd m block =
                      (case block m of
                         (m2, r) \<Rightarrow>
                           (case encode cd e m2 of
                              (m3, Inl err) \<Rightarrow> (m3, Inl err)
                            | (m3, Inr u) \<Rightarrow> (m3, r))))))
       \<and> (\<not> in_ENCODINGS ce \<longrightarrow>
            decoded_enter cd (decoded_init m) m = m
            \<and> (\<forall>m2. decoded_exit cd (decoded_init m) m2 = (m2, Inr ()))
            \<and> with_decoded cd m block = block m)"
proof (intro conjI impI)
  assume sup: "in_ENCODINGS ce"
  then obtain e where e: "ce = Some e" by (cases ce) auto
  from sup e have ne: "e \<noteq> []" by (auto simp: ENCODINGS_def)
  have init: "decoded_init m = Some e"
    using sup e by (simp add: decoded_init_def ce_def)
  have enter: "decoded_enter cd (decoded_init m) m = fst (decode cd m)"
    using init ne by (simp add: decoded_enter_def)
  have exit: "\<And>m2. decoded_exit cd (decoded_init m) m2 = encode cd e m2"
    using init ne by (simp add: decoded_exit_def)
  have w: "with_decoded cd m block =
             (case block (fst (decode cd m)) of
                (m2, r) \<Rightarrow>
                  (case encode cd e m2 of
                     (m3, Inl err) \<Rightarrow> (m3, Inl err)
                   | (m3, Inr u) \<Rightarrow> (m3, r)))"
    unfolding with_decoded_def Let_def enter
    by (simp add: exit split: prod.splits)
  have f: "\<not> snd (decode cd m) \<longrightarrow>
             with_decoded cd m block =
               (case block m of
                  (m2, r) \<Rightarrow>
                    (case encode cd e m2 of
                       (m3, Inl err) \<Rightarrow> (m3, Inl err)
                     | (m3, Inr u) \<Rightarrow> (m3, r)))"
    using w decode_False_unchanged [of cd m] by simp
  show "\<exists>e. ce = Some e \<and> decoded_init m = Some e
               \<and> decoded_enter cd (decoded_init m) m = fst (decode cd m)
               \<and> (\<forall>m2. decoded_exit cd (decoded_init m) m2 = encode cd e m2)
               \<and> with_decoded cd m block =
                   (case block (fst (decode cd m)) of
                      (m2, r) \<Rightarrow>
                        (case encode cd e m2 of
                           (m3, Inl err) \<Rightarrow> (m3, Inl err)
                         | (m3, Inr u) \<Rightarrow> (m3, r)))
               \<and> (\<not> snd (decode cd m) \<longrightarrow>
                    with_decoded cd m block =
                      (case block m of
                         (m2, r) \<Rightarrow>
                           (case encode cd e m2 of
                              (m3, Inl err) \<Rightarrow> (m3, Inl err)
                            | (m3, Inr u) \<Rightarrow> (m3, r))))"
    using e init enter exit w f by blast
next
  assume un: "\<not> in_ENCODINGS ce"
  then have init: "decoded_init m = None"
    by (simp add: decoded_init_def ce_def)
  show "decoded_enter cd (decoded_init m) m = m"
    by (simp add: init decoded_enter_def)
  show "\<forall>m2. decoded_exit cd (decoded_init m) m2 = (m2, Inr ())"
    by (simp add: init decoded_exit_def)
  show "with_decoded cd m block = block m"
    by (simp add: with_decoded_def init decoded_enter_def decoded_exit_def split: prod.splits)
qed

theorem decoded_reencodes_witness:
  "with_decoded sample_codec msg_gz raising_block =
     (msg_gz\<lparr>body := Str ''GZ:apple'',
             headers := [(''Host'', ''example.com''), (''content-encoding'', ''gzip'')]\<rparr>,
      Inl ValueError)
   \<and> with_decoded sample_codec msg_bad (\<lambda>m. (m, Inr (0::nat))) =
     (msg_bad\<lparr>body := Str ''GZ:banana'',
              headers := [(''Host'', ''example.com''), (''content-encoding'', ''gzip'')]\<rparr>,
      Inr 0)
   \<and> with_decoded sample_codec msg_plain raising_block = raising_block msg_plain"
proof -
  have d1: "decode sample_codec msg_gz =
     (msg_gz\<lparr>body := Str ''banana'', headers := [(''Host'', ''example.com'')]\<rparr>, True)"
    by (simp add: decode_def Let_def get_first_def odict_get_def ENCODINGS_def msg_fields
          sample_codec_def sample_decode_def odict_del_def key_eval)
  have d2: "decode sample_codec msg_bad = (msg_bad, False)"
    by (simp add: decode_def Let_def get_first_def odict_get_def ENCODINGS_def msg_fields
          sample_codec_def sample_decode_def key_eval)
  have e1: "encode sample_codec ''gzip''
              (msg_gz\<lparr>headers := [(''Host'', ''example.com'')], body := Str ''apple''\<rparr>) =
            (msg_gz\<lparr>body := Str ''GZ:apple'',
               headers := [(''Host'', ''example.com''), (''content-encoding'', ''gzip'')]\<rparr>, Inr ())"
    by (simp add: encode_def sample_codec_def sample_encode_def odict_set_def odict_del_def
          key_eval)
  have e2: "encode sample_codec ''gzip'' msg_bad =
            (msg_bad\<lparr>body := Str ''GZ:banana'',
               headers := [(''Host'', ''example.com''), (''content-encoding'', ''gzip'')]\<rparr>, Inr ())"
    by (simp add: encode_def msg_fields sample_codec_def sample_encode_def odict_set_def
          odict_del_def key_eval)
  show ?thesis
    using decoded_reencodes [of msg_gz sample_codec raising_block]
      decoded_reencodes [of msg_bad sample_codec "\<lambda>m. (m, Inr (0::nat))"]
      decoded_reencodes [of msg_plain sample_codec raising_block]
    unfolding hdr_eval d1 d2 e1 e2 raising_block_def
    by (auto simp: ENCODINGS_def e1 e2)
qed

subsection \<open>The short state\<close>

lemma contentLength_short:
  "get_state True m ''contentLength'' =
     Some (case body m of PyNone \<Rightarrow> SInt 0 | CONTENT_MISSING \<Rightarrow> SNone
           | Str s \<Rightarrow> SInt (int (length s)))"
  by (cases "body m") (auto simp: get_state_def len_def Let_def)

lemma get_state_other:
  "k \<noteq> ''body'' \<Longrightarrow> k \<noteq> ''contentLength'' \<Longrightarrow> get_state True m k = get_state False m k"
  by (simp add: get_state_def StateObject_get_state_def stateobject_attributes_def
        stateobject_long_attributes_def Let_def)

lemma get_state_body:
  "get_state True m ''body'' = None"
  "get_state False m ''body'' = Some (state_of_pystr (body m))"
  "get_state False m ''contentLength'' = None"
  by (simp_all add: get_state_def StateObject_get_state_def stateobject_attributes_def
        stateobject_long_attributes_def Let_def)

text \<open>
  C2, as amended. In the short state \<^verbatim>\<open>contentLength\<close> is \<^verbatim>\<open>None\<close> exactly when the body
  is \<^verbatim>\<open>CONTENT_MISSING\<close>; it is 0 exactly when the body is the empty string or \<^verbatim>\<open>None\<close>;
  it is the length of a non-empty body. The short state has no \<^verbatim>\<open>body\<close> entry, the full
  state has the body and no \<^verbatim>\<open>contentLength\<close>, and every other entry is the same in both.
\<close>

theorem get_state_short:
  "(get_state True m ''contentLength'' = Some SNone \<longleftrightarrow> body m = CONTENT_MISSING)
   \<and> (get_state True m ''contentLength'' = Some (SInt 0) \<longleftrightarrow> body m = Str [] \<or> body m = PyNone)
   \<and> (\<forall>s. body m = Str s \<and> s \<noteq> []
          \<longrightarrow> get_state True m ''contentLength'' = Some (SInt (int (length s))))
   \<and> get_state True m ''body'' = None
   \<and> get_state False m ''body'' = Some (state_of_pystr (body m))
   \<and> get_state False m ''contentLength'' = None
   \<and> (\<forall>k. k \<noteq> ''body'' \<and> k \<noteq> ''contentLength'' \<longrightarrow> get_state True m k = get_state False m k)"
proof -
  have "get_state True m ''contentLength'' = Some SNone \<longleftrightarrow> body m = CONTENT_MISSING"
    by (cases "body m") (simp_all add: contentLength_short)
  moreover have "get_state True m ''contentLength'' = Some (SInt 0) \<longleftrightarrow> body m = Str [] \<or> body m = PyNone"
    by (cases "body m") (simp_all add: contentLength_short)
  moreover have "\<forall>s. body m = Str s \<and> s \<noteq> []
          \<longrightarrow> get_state True m ''contentLength'' = Some (SInt (int (length s)))"
    by (simp add: contentLength_short)
  ultimately show ?thesis
    using get_state_body [of m] get_state_other [of _ m] by blast
qed

theorem get_state_short_witness:
  "get_state True msg_missing ''contentLength'' = Some SNone
   \<and> get_state True msg_empty ''contentLength'' = Some (SInt 0)
   \<and> get_state True msg_ten ''contentLength'' = Some (SInt 10)
   \<and> get_state True msg_ten ''headers'' = get_state False msg_ten ''headers''
   \<and> get_state False msg_ten ''headers'' = Some (SHeaders [(''Host'', ''example.com'')])"
proof -
  have b: "body msg_missing = CONTENT_MISSING" "body msg_empty = Str []"
    "body msg_ten = Str ''0123456789''"
    by (simp_all add: msg_missing_def msg_empty_def msg_ten_def)
  have h: "get_state False msg_ten ''headers'' = Some (SHeaders [(''Host'', ''example.com'')])"
    by (simp add: get_state_def StateObject_get_state_def stateobject_attributes_def msg_ten_def)
  show ?thesis
    using get_state_short [of msg_missing] get_state_short [of msg_empty]
      get_state_short [of msg_ten] b h
    by simp
qed

text \<open>
  The claim as first stated has \<^verbatim>\<open>contentLength\<close> 0 only for a captured empty body; a
  message whose body is \<^verbatim>\<open>None\<close> also gets 0, through the last branch.
\<close>

theorem get_state_short_counterexample:
  "get_state True msg_nobody ''contentLength'' = Some (SInt 0) \<and> body msg_nobody \<noteq> Str []"
  by (simp add: contentLength_short msg_nobody_def)

subsection \<open>\<^verbatim>\<open>replace\<close>\<close>

lemma with_decoded_eq:
  "with_decoded cd m block =
     (case block (fst (decode cd m)) of
        (m2, r) \<Rightarrow>
          (case decoded_exit cd (decoded_init m) m2 of
             (m3, Inl err) \<Rightarrow> (m3, Inl err)
           | (m3, Inr u) \<Rightarrow> (m3, r)))"
proof (cases "in_ENCODINGS (get_first ''content-encoding'' (headers m))")
  case True
  then have "ce_truthy (decoded_init m)"
    by (simp add: decoded_init_Some in_ENCODINGS_truthy)
  then show ?thesis
    by (simp add: with_decoded_def decoded_enter_def)
next
  case False
  then show ?thesis
    by (simp add: with_decoded_def decoded_enter_def decoded_init_None decode_unsupported)
qed

lemma odict_replace_get:
  "odict_replace sb h = Inr (h', n) \<Longrightarrow> odict_get k h' = map (subst_text sb) (odict_get k h)"
proof (induction h arbitrary: h' n)
  case Nil
  then show ?case by (simp add: odict_get_def)
next
  case (Cons kv h)
  obtain k0 v0 where kv: "kv = (k0, v0)" by (cases kv)
  from Cons.prems kv obtain v' c h0 n0 where
    s: "subn sb v0 = Inr (v', c)" and r: "odict_replace sb h = Inr (h0, n0)"
    and h': "h' = (k0, v') # h0"
    by (auto split: sum.splits prod.splits)
  from Cons.IH [OF r] have "odict_get k h0 = map (subst_text sb) (odict_get k h)" .
  then show ?case
    using kv s h' by (simp add: odict_get_def subst_text_def)
qed

lemma odict_replace_count:
  "odict_replace sb h = Inr (h', n) \<Longrightarrow> n = (\<Sum>kv\<leftarrow>h. count_in sb (Str (snd kv)))"
proof (induction h arbitrary: h' n)
  case Nil
  then show ?case by simp
next
  case (Cons kv h)
  obtain k0 v0 where kv: "kv = (k0, v0)" by (cases kv)
  from Cons.prems kv obtain v' c h0 n0 where
    s: "subn sb v0 = Inr (v', c)" and r: "odict_replace sb h = Inr (h0, n0)"
    and n: "n = c + n0"
    by (auto split: sum.splits prod.splits)
  from Cons.IH [OF r] show ?case
    using kv s n by (simp add: count_in_def safe_subn_def)
qed

lemma odict_replace_returns:
  "(\<forall>kv\<in>set h. \<exists>v' c. subn sb (snd kv) = Inr (v', c)) \<Longrightarrow> \<exists>h' n. odict_replace sb h = Inr (h', n)"
proof (induction h)
  case Nil
  then show ?case by simp
next
  case (Cons kv h)
  obtain k0 v0 where kv: "kv = (k0, v0)" by (cases kv)
  from Cons.prems kv obtain v' c where s: "subn sb v0 = Inr (v', c)" by auto
  from Cons obtain h0 n0 where "odict_replace sb h = Inr (h0, n0)" by auto
  then show ?case using kv s by simp
qed

lemma replace_block_Inr:
  "safe_subn sb (body m) = Inr (b', bc) \<Longrightarrow> replace_block sb m = (m\<lparr>body := b'\<rparr>, Inr bc)"
  by (simp add: replace_block_def)

lemma MessageMixin_replace_steps:
  assumes "safe_subn sb (body (fst (decode cd m))) = Inr (b', bc)"
    and "decoded_exit cd (decoded_init m) ((fst (decode cd m))\<lparr>body := b'\<rparr>) = (m2, Inr ())"
    and "odict_replace sb (headers m2) = Inr (h', hc)"
  shows "MessageMixin_replace cd sb m = (m2\<lparr>headers := h'\<rparr>, Inr (bc + hc))"
  using assms
  by (simp add: MessageMixin_replace_def with_decoded_eq replace_block_Inr)

lemma MessageMixin_replace_returns:
  assumes "MessageMixin_replace cd sb m = (m', Inr n)"
  shows "\<exists>b' bc m2 h' hc.
           safe_subn sb (body (fst (decode cd m))) = Inr (b', bc)
         \<and> decoded_exit cd (decoded_init m) ((fst (decode cd m))\<lparr>body := b'\<rparr>) = (m2, Inr ())
         \<and> odict_replace sb (headers m2) = Inr (h', hc)
         \<and> m' = m2\<lparr>headers := h'\<rparr> \<and> n = bc + hc"
  using assms
  by (auto simp: MessageMixin_replace_def with_decoded_eq replace_block_def
      split: prod.splits sum.splits)

subsection \<open>\<^verbatim>\<open>HTTPRequest.replace\<close>\<close>

lemma path_decode: "path (fst (decode cd r)) = path r"
  by (auto simp: decode_def Let_def split: option.splits pystr.splits)

lemma path_decoded_exit: "decoded_exit cd ce x = (y, res) \<Longrightarrow> path y = path x"
  by (auto simp: decoded_exit_def encode_def split: option.splits if_splits sum.splits)

lemma HTTPRequest_replace_steps:
  fixes r :: "'a request_scheme"
  assumes b: "safe_subn sb (body (fst (decode cd r))) = Inr (b', bc)"
    and x: "decoded_exit cd (decoded_init r) ((fst (decode cd r))\<lparr>body := b'\<rparr>) = (r2, Inr ())"
    and h: "odict_replace sb (headers r2) = Inr (h', hc)"
    and p: "safe_subn sb (path r) = Inr (p', pc)"
  shows "HTTPRequest_replace cd sb r = (r2\<lparr>headers := h', path := p'\<rparr>, Inr (bc + hc + pc))"
proof -
  have "path r2 = path r"
    using path_decoded_exit [OF x] by (simp add: path_decode)
  then show ?thesis
    using MessageMixin_replace_steps [OF b x h] p
    by (simp add: HTTPRequest_replace_def)
qed

lemma safe_subn_count: "safe_subn sb t = Inr (t', c) \<Longrightarrow> c = count_in sb t \<and> t' = subst_in sb t"
  by (simp add: count_in_def subst_in_def)

text \<open>
  C7. \<^verbatim>\<open>HTTPRequest.replace\<close> returns the sum of three counts: the substitutions in the
  body as \<^verbatim>\<open>decode\<close> leaves it on entry (the decoded content when the body decodes), the
  substitutions in the header values, and the substitutions in the path. The headers are
  the ones present after the body has been encoded again. The substitution helper is a
  parameter that may raise; the first part gives the result when it returns on body, header
  values and path and the encoding on exit returns, the second part says that a returned
  count always is this sum.
\<close>

theorem HTTPRequest_replace_sum:
  fixes r :: "'a request_scheme"
  shows "(\<forall>b' bc r2 h' hc p' pc.
            safe_subn sb (body (fst (decode cd r))) = Inr (b', bc)
          \<and> decoded_exit cd (decoded_init r) ((fst (decode cd r))\<lparr>body := b'\<rparr>) = (r2, Inr ())
          \<and> odict_replace sb (headers r2) = Inr (h', hc)
          \<and> safe_subn sb (path r) = Inr (p', pc)
          \<longrightarrow> HTTPRequest_replace cd sb r = (r2\<lparr>headers := h', path := p'\<rparr>, Inr (bc + hc + pc))
            \<and> bc = count_in sb (body (fst (decode cd r)))
            \<and> hc = (\<Sum>kv\<leftarrow>headers r2. count_in sb (Str (snd kv)))
            \<and> pc = count_in sb (path r))
       \<and> (\<forall>r' n. HTTPRequest_replace cd sb r = (r', Inr n) \<longrightarrow>
            (\<exists>r2. decoded_exit cd (decoded_init r)
                     ((fst (decode cd r))\<lparr>body := subst_in sb (body (fst (decode cd r)))\<rparr>)
                   = (r2, Inr ())
               \<and> n = count_in sb (body (fst (decode cd r)))
                     + (\<Sum>kv\<leftarrow>headers r2. count_in sb (Str (snd kv)))
                     + count_in sb (path r)))"
proof (intro conjI allI impI)
  fix b' bc r2 h' hc p' pc
  assume a: "safe_subn sb (body (fst (decode cd r))) = Inr (b', bc)
          \<and> decoded_exit cd (decoded_init r) ((fst (decode cd r))\<lparr>body := b'\<rparr>) = (r2, Inr ())
          \<and> odict_replace sb (headers r2) = Inr (h', hc)
          \<and> safe_subn sb (path r) = Inr (p', pc)"
  then show "HTTPRequest_replace cd sb r = (r2\<lparr>headers := h', path := p'\<rparr>, Inr (bc + hc + pc))"
    using HTTPRequest_replace_steps [of sb cd r b' bc r2 h' hc p' pc] by simp
  from a show "bc = count_in sb (body (fst (decode cd r)))"
    using safe_subn_count by blast
  from a show "hc = (\<Sum>kv\<leftarrow>headers r2. count_in sb (Str (snd kv)))"
    using odict_replace_count by blast
  from a show "pc = count_in sb (path r)"
    using safe_subn_count by blast
next
  fix r' n
  assume ret: "HTTPRequest_replace cd sb r = (r', Inr n)"
  then obtain r1 c p' pc where
    m: "MessageMixin_replace cd sb r = (r1, Inr c)"
    and p: "safe_subn sb (path r1) = Inr (p', pc)" and n: "n = c + pc"
    by (auto simp: HTTPRequest_replace_def split: prod.splits sum.splits)
  from MessageMixin_replace_returns [OF m] obtain b' bc r2 h' hc where
    b: "safe_subn sb (body (fst (decode cd r))) = Inr (b', bc)"
    and x: "decoded_exit cd (decoded_init r) ((fst (decode cd r))\<lparr>body := b'\<rparr>) = (r2, Inr ())"
    and h: "odict_replace sb (headers r2) = Inr (h', hc)"
    and r1: "r1 = r2\<lparr>headers := h'\<rparr>" and c: "c = bc + hc"
    by blast
  have "path r1 = path r"
    using path_decoded_exit [OF x] r1 by (simp add: path_decode)
  with p have pc: "pc = count_in sb (path r)"
    using safe_subn_count by metis
  have bc: "bc = count_in sb (body (fst (decode cd r)))" and b': "b' = subst_in sb (body (fst (decode cd r)))"
    using safe_subn_count [OF b] by simp_all
  have hc: "hc = (\<Sum>kv\<leftarrow>headers r2. count_in sb (Str (snd kv)))"
    using odict_replace_count [OF h] .
  show "\<exists>r2. decoded_exit cd (decoded_init r)
                     ((fst (decode cd r))\<lparr>body := subst_in sb (body (fst (decode cd r)))\<rparr>)
                   = (r2, Inr ())
               \<and> n = count_in sb (body (fst (decode cd r)))
                     + (\<Sum>kv\<leftarrow>headers r2. count_in sb (Str (snd kv)))
                     + count_in sb (path r)"
    using x b' n c bc hc pc by auto
qed

lemma req_gz_fields:
  "headers req_gz = [(''Host'', ''example.com''), (''Content-Encoding'', ''gzip'')]"
  "body req_gz = Str ''GZ:banana''"
  "path req_gz = Str ''/data''"
  by (simp_all add: req_gz_def)

theorem HTTPRequest_replace_sum_witness:
  "HTTPRequest_replace sample_codec sample_subst req_gz =
     (req_gz\<lparr>headers := [(''Host'', ''exAmple.com''), (''content-encoding'', ''gzip'')],
             body := Str ''GZ:bAnAnA'', path := Str ''/dAtA''\<rparr>, Inr 6)"
proof -
  define r2 where "r2 = req_gz\<lparr>headers := [(''Host'', ''example.com''), (''content-encoding'', ''gzip'')],
                               body := Str ''GZ:bAnAnA''\<rparr>"
  have d: "decode sample_codec req_gz =
     (req_gz\<lparr>body := Str ''banana'', headers := [(''Host'', ''example.com'')]\<rparr>, True)"
    by (simp add: decode_def Let_def get_first_def odict_get_def ENCODINGS_def req_gz_fields
          sample_codec_def sample_decode_def odict_del_def key_eval)
  have i: "decoded_init req_gz = Some ''gzip''"
    by (simp add: decoded_init_def Let_def get_first_def odict_get_def ENCODINGS_def req_gz_fields key_eval)
  have b: "safe_subn sample_subst (body (fst (decode sample_codec req_gz))) = Inr (Str ''bAnAnA'', 3)"
    unfolding d fst_conv by (simp add: safe_subn_def sample_subst_def)
  have x: "decoded_exit sample_codec (decoded_init req_gz)
             ((fst (decode sample_codec req_gz))\<lparr>body := Str ''bAnAnA''\<rparr>) = (r2, Inr ())"
    unfolding d i fst_conv
    by (simp add: r2_def decoded_exit_def encode_def sample_codec_def sample_encode_def
          odict_set_def odict_del_def key_eval)
  have h: "odict_replace sample_subst (headers r2)
           = Inr ([(''Host'', ''exAmple.com''), (''content-encoding'', ''gzip'')], 1)"
    by (simp add: r2_def sample_subst_def)
  have p: "safe_subn sample_subst (path req_gz) = Inr (Str ''/dAtA'', 2)"
    by (simp add: req_gz_fields safe_subn_def sample_subst_def)
  from HTTPRequest_replace_sum [of sample_subst sample_codec req_gz] b x h p
  have "HTTPRequest_replace sample_codec sample_subst req_gz =
          (r2\<lparr>headers := [(''Host'', ''exAmple.com''), (''content-encoding'', ''gzip'')],
              path := Str ''/dAtA''\<rparr>, Inr (3 + 1 + 2))"
    by blast
  then show ?thesis by (simp add: r2_def)
qed

subsection \<open>\<^verbatim>\<open>MessageMixin.replace\<close> on an encoded body\<close>

lemma odict_del_idem: "odict_del k (odict_del k h) = odict_del k h"
  by (simp add: odict_del_def)

lemma set_odict_del: "set (odict_del k h) \<subseteq> set h"
  by (auto simp: odict_del_def)

lemma get_first_single: "odict_get k h = [v] \<Longrightarrow> get_first k h = Some v"
  by (simp add: get_first_def)

text \<open>
  C3. Let the first content-encoding value of a message be \<^verbatim>\<open>gzip\<close> and let its body
  decode to the plain text \<open>p\<close>. Let the substitution turn \<open>p\<close> into \<open>p'\<close>, return on
  every header value and leave the text \<^verbatim>\<open>gzip\<close> alone, and let the codec encode \<open>p'\<close> to
  a non-empty string that decodes to \<open>p'\<close> again. Then \<^verbatim>\<open>replace\<close> returns, the message has
  the single content-encoding value \<^verbatim>\<open>gzip\<close>, and \<^verbatim>\<open>decode()\<close> on it succeeds and leaves
  the body \<open>p'\<close>.
\<close>

theorem replace_keeps_gzip:
  fixes m :: "'a message_scheme"
  assumes ce: "get_first ''content-encoding'' (headers m) = Some ''gzip''"
    and b: "body m = Str z" "z \<noteq> []"
    and dec: "encoding_decode cd ''gzip'' z = Some p"
    and sub: "subn sb p = Inr (p', c)"
    and enc: "encoding_encode cd ''gzip'' (Str p') = Inr (Str z')"
    and rt: "z' \<noteq> []" "encoding_decode cd ''gzip'' z' = Some p'"
    and hv: "\<forall>kv\<in>set (headers m). \<exists>v' n. subn sb (snd kv) = Inr (v', n)"
    and gz: "subn sb ''gzip'' = Inr (''gzip'', 0)"
  shows "\<exists>m' n. MessageMixin_replace cd sb m = (m', Inr n)
           \<and> odict_get ''content-encoding'' (headers m') = [''gzip'']
           \<and> get_first ''content-encoding'' (headers m') = Some ''gzip''
           \<and> body m' = Str z'
           \<and> (\<exists>m''. decode cd m' = (m'', True) \<and> body m'' = Str p')"
proof -
  let ?CE = "''content-encoding''"
  let ?h1 = "odict_del ?CE (headers m)"
  let ?h2 = "odict_set ?CE [''gzip''] ?h1"
  have sup: "in_ENCODINGS (get_first ?CE (headers m))"
    by (simp add: ce ENCODINGS_def)
  have d: "decode cd m = (m\<lparr>body := Str p, headers := ?h1\<rparr>, True)"
    using ce b dec sup by (simp add: decode_def)
  have i: "decoded_init m = Some ''gzip''"
    using sup ce by (simp add: decoded_init_Some)
  have s: "safe_subn sb (body (fst (decode cd m))) = Inr (Str p', c)"
    by (simp add: d safe_subn_def sub)
  have x: "decoded_exit cd (decoded_init m) ((fst (decode cd m))\<lparr>body := Str p'\<rparr>)
           = (m\<lparr>body := Str z', headers := ?h2\<rparr>, Inr ())"
    by (simp add: d i decoded_exit_def encode_def enc)
  have "\<forall>kv\<in>set ?h2. \<exists>v' n. subn sb (snd kv) = Inr (v', n)"
    using hv gz set_odict_del [of ?CE "headers m"]
    by (auto simp: odict_set_def odict_del_idem)
  then obtain h' hc where h: "odict_replace sb ?h2 = Inr (h', hc)"
    using odict_replace_returns by blast
  then have h2: "odict_replace sb (headers (m\<lparr>body := Str z', headers := ?h2\<rparr>)) = Inr (h', hc)"
    by simp
  have r: "MessageMixin_replace cd sb m = (m\<lparr>body := Str z', headers := ?h2, headers := h'\<rparr>, Inr (c + hc))"
    using MessageMixin_replace_steps [OF s x h2] by simp
  have g: "odict_get ?CE h' = [''gzip'']"
    using odict_replace_get [OF h, of ?CE] gz
    by (simp add: odict_get_set_same subst_text_def)
  let ?m' = "m\<lparr>body := Str z', headers := ?h2, headers := h'\<rparr>"
  have d': "decode cd ?m' = (?m'\<lparr>body := Str p', headers := odict_del ?CE h'\<rparr>, True)"
    using get_first_single [OF g] rt by (simp add: decode_def ENCODINGS_def)
  show ?thesis
    using r g get_first_single [OF g] d' by simp
qed

theorem replace_keeps_gzip_witness:
  "\<exists>m' n. MessageMixin_replace sample_codec sample_subst msg_gz = (m', Inr n)
           \<and> odict_get ''content-encoding'' (headers m') = [''gzip'']
           \<and> get_first ''content-encoding'' (headers m') = Some ''gzip''
           \<and> body m' = Str ''GZ:bAnAnA''
           \<and> (\<exists>m''. decode sample_codec m' = (m'', True) \<and> body m'' = Str ''bAnAnA'')"
proof -
  have 1: "encoding_decode sample_codec ''gzip'' ''GZ:banana'' = Some ''banana''"
    by (simp add: sample_codec_def sample_decode_def)
  have 2: "subn sample_subst ''banana'' = Inr (''bAnAnA'', 3)"
    by (simp add: sample_subst_def)
  have 3: "encoding_encode sample_codec ''gzip'' (Str ''bAnAnA'') = Inr (Str ''GZ:bAnAnA'')"
    by (simp add: sample_codec_def sample_encode_def)
  have 4: "encoding_decode sample_codec ''gzip'' ''GZ:bAnAnA'' = Some ''bAnAnA''"
    by (simp add: sample_codec_def sample_decode_def)
  have 5: "\<forall>kv\<in>set (headers msg_gz). \<exists>v' n. subn sample_subst (snd kv) = Inr (v', n)"
    by (simp add: sample_subst_def)
  have 6: "subn sample_subst ''gzip'' = Inr (''gzip'', 0)"
    by (simp add: sample_subst_def)
  show ?thesis
    using replace_keeps_gzip [of msg_gz "''GZ:banana''" sample_codec "''banana''" sample_subst
        "''bAnAnA''" 3 "''GZ:bAnAnA''", OF hdr_eval(1) msg_fields(2) _ 1 2 3 _ 4 5 6]
    by simp
qed

subsection \<open>\<^verbatim>\<open>HTTPFlow.match\<close>\<close>

text \<open>
  C8, as amended. For every flow: with no filter (\<^verbatim>\<open>None\<close>) \<^verbatim>\<open>match\<close> returns \<^verbatim>\<open>True\<close>; with
  a text that the filter engine does not compile it raises \<^verbatim>\<open>ValueError\<close>; with a text
  that compiles it returns what the compiled predicate says of the flow; with a compiled
  predicate it returns what the predicate says of the flow.
\<close>

theorem HTTPFlow_match_cases:
  "HTTPFlow_match filt_parse fl FNone = Inr True
   \<and> (\<forall>s. filt_parse s = None \<longrightarrow> HTTPFlow_match filt_parse fl (FText s) = Inl ValueError)
   \<and> (\<forall>s p. filt_parse s = Some p \<longrightarrow> HTTPFlow_match filt_parse fl (FText s) = Inr (p fl))
   \<and> (\<forall>p. HTTPFlow_match filt_parse fl (FCompiled p) = Inr (p fl))"
  by (simp add: HTTPFlow_match_def)

theorem HTTPFlow_match_cases_witness:
  "HTTPFlow_match sample_filt_parse sample_flow FNone = Inr True
   \<and> HTTPFlow_match sample_filt_parse sample_flow (FText ''~invalid[[['') = Inl ValueError
   \<and> HTTPFlow_match sample_filt_parse sample_flow (FText ''~s'') = Inr False
   \<and> HTTPFlow_match sample_filt_parse sample_flow (FCompiled (\<lambda>fl. f_request fl = Some 1))
       = Inr True"
proof -
  have 1: "sample_filt_parse ''~invalid[[['' = None"
    by (simp add: sample_filt_parse_def)
  have 2: "sample_filt_parse ''~s'' = Some (\<lambda>fl. f_response fl \<noteq> None)"
    by (simp add: sample_filt_parse_def)
  have 3: "f_request sample_flow = Some 1" "f_response sample_flow = None"
    by (simp_all add: sample_flow_def)
  show ?thesis
    using HTTPFlow_match_cases [of sample_filt_parse sample_flow] 1 2 3 by simp
qed

text \<open>
  The claim as first stated also promises \<^verbatim>\<open>True\<close> for an empty filter argument. The
  empty string is text: it goes to the filter engine like any other expression, and with
  an engine that does not compile it \<^verbatim>\<open>match\<close> raises.
\<close>

theorem HTTPFlow_match_empty_counterexample:
  "HTTPFlow_match sample_filt_parse sample_flow (FText []) = Inl ValueError"
  by (simp add: HTTPFlow_match_def sample_filt_parse_def)

subsection \<open>\<^verbatim>\<open>refresh\<close>\<close>

lemma refresh_keys:
  "\<not> same_key ''date'' ''expires''" "\<not> same_key ''date'' ''last-modified''"
  "\<not> same_key ''expires'' ''date''" "\<not> same_key ''expires'' ''last-modified''"
  "\<not> same_key ''last-modified'' ''date''" "\<not> same_key ''last-modified'' ''expires''"
  "\<not> same_key ''date'' ''set-cookie''" "\<not> same_key ''expires'' ''set-cookie''"
  "\<not> same_key ''last-modified'' ''set-cookie''"
  "\<not> same_key ''set-cookie'' ''date''" "\<not> same_key ''set-cookie'' ''expires''"
  "\<not> same_key ''set-cookie'' ''last-modified''"
  by (simp_all add: same_key_def lower_def lower_char_def)


lemma map_result_Nil: "map_result f xs = Inr [] \<Longrightarrow> xs = []"
  by (cases xs) (auto split: sum.splits)

lemma map_result_returns:
  "(\<forall>x\<in>set xs. \<exists>y. f x = Inr y) \<Longrightarrow> \<exists>ys. map_result f xs = Inr ys"
  by (induction xs) auto

lemma refresh_header_same:
  "refresh_header lib delta i h = Inr h' \<Longrightarrow>
   refreshed_to lib delta (odict_get i h) (odict_get i h')"
  by (auto simp: refresh_header_def refreshed_to_def odict_in_get odict_get_set_same
      split: list.splits option.splits sum.splits if_splits)

lemma refresh_header_other:
  "refresh_header lib delta j h = Inr h' \<Longrightarrow> \<not> same_key j i \<Longrightarrow>
   odict_get i h' = odict_get i h"
  by (auto simp: refresh_header_def odict_get_set_other
      split: list.splits option.splits sum.splits if_splits)

lemma refresh_loop_other:
  "refresh_loop lib delta names h = (h1, res) \<Longrightarrow> \<forall>j\<in>set names. \<not> same_key j i \<Longrightarrow>
   odict_get i h1 = odict_get i h"
proof (induction names arbitrary: h)
  case Nil
  then show ?case by simp
next
  case (Cons j names)
  show ?case
  proof (cases "refresh_header lib delta j h")
    case (Inl err)
    with Cons.prems show ?thesis by simp
  next
    case (Inr h')
    with Cons.prems have "refresh_loop lib delta names h' = (h1, res)" by simp
    from Cons.IH [OF this] Cons.prems(2) have "odict_get i h1 = odict_get i h'" by simp
    moreover have "odict_get i h' = odict_get i h"
      using refresh_header_other [OF Inr] Cons.prems(2) by simp
    ultimately show ?thesis by simp
  qed
qed

lemma refresh_loop_same:
  assumes "refresh_loop lib delta refresh_headers h = (h1, Inr ())"
    and "i \<in> set refresh_headers"
  shows "refreshed_to lib delta (odict_get i h) (odict_get i h1)"
proof -
  from assms(1) obtain ha hb where
    a: "refresh_header lib delta ''date'' h = Inr ha"
    and b: "refresh_header lib delta ''expires'' ha = Inr hb"
    and c: "refresh_header lib delta ''last-modified'' hb = Inr h1"
    by (auto simp: refresh_headers_def split: sum.splits)
  from assms(2) consider "i = ''date''" | "i = ''expires''" | "i = ''last-modified''"
    by (auto simp: refresh_headers_def)
  then show ?thesis
  proof cases
    case 1
    have "odict_get i h1 = odict_get i ha"
      using refresh_header_other [OF b, of i] refresh_header_other [OF c, of i] 1
      by (simp add: refresh_keys)
    then show ?thesis using refresh_header_same [OF a] 1 by simp
  next
    case 2
    have "odict_get i ha = odict_get i h" "odict_get i h1 = odict_get i hb"
      using refresh_header_other [OF a, of i] refresh_header_other [OF c, of i] 2
      by (simp_all add: refresh_keys)
    then show ?thesis using refresh_header_same [OF b] 2 by simp
  next
    case 3
    have "odict_get i hb = odict_get i h"
      using refresh_header_other [OF a, of i] refresh_header_other [OF b, of i] 3
      by (simp add: refresh_keys)
    then show ?thesis using refresh_header_same [OF c] 3 by simp
  qed
qed

lemma refresh_loop_cookie:
  "odict_get ''set-cookie'' (fst (refresh_loop lib delta refresh_headers h))
   = odict_get ''set-cookie'' h"
proof -
  obtain h1 res where r: "refresh_loop lib delta refresh_headers h = (h1, res)"
    by (cases "refresh_loop lib delta refresh_headers h")
  have "\<forall>j\<in>set refresh_headers. \<not> same_key j ''set-cookie''"
    by (simp add: refresh_headers_def refresh_keys)
  from refresh_loop_other [OF r this] r show ?thesis by simp
qed

lemma refresh_Some:
  "timestamp_start r = Some t0 \<Longrightarrow>
   refresh lib ck now r = refresh_from lib ck (float_sub lib (now_or_clock lib now) t0) r"
  by (simp add: refresh_def Let_def)

lemma refresh_from_Inr:
  assumes "refresh_from lib ck delta r = (r', Inr ())"
  shows "\<exists>h1 c. refresh_loop lib delta refresh_headers (headers r) = (h1, Inr ())
           \<and> map_result (\<lambda>i. refresh_cookie lib ck i delta) (odict_get ''set-cookie'' (headers r))
               = Inr c
           \<and> odict_get ''set-cookie'' (headers r') = c
           \<and> (\<forall>i\<in>set refresh_headers. odict_get i (headers r') = odict_get i h1)"
proof -
  from assms obtain h1 c where
    l: "refresh_loop lib delta refresh_headers (headers r) = (h1, Inr ())"
    and m: "map_result (\<lambda>i. refresh_cookie lib ck i delta) (odict_get ''set-cookie'' h1) = Inr c"
    and r': "r' = r\<lparr>headers := (if c \<noteq> [] then odict_set ''set-cookie'' c h1 else h1)\<rparr>"
    by (auto simp: refresh_from_def split: prod.splits sum.splits)
  have k: "odict_get ''set-cookie'' h1 = odict_get ''set-cookie'' (headers r)"
    using refresh_loop_cookie [of lib delta "headers r"] l by simp
  have c: "odict_get ''set-cookie'' (headers r') = c"
  proof (cases "c = []")
    case True
    with m have "odict_get ''set-cookie'' h1 = []" by (simp add: map_result_Nil)
    with True r' show ?thesis by simp
  next
    case False
    with r' show ?thesis by (simp add: odict_get_set_same)
  qed
  have "\<forall>i\<in>set refresh_headers. odict_get i (headers r') = odict_get i h1"
    using r' by (auto simp: refresh_headers_def odict_get_set_other refresh_keys)
  with l m k c show ?thesis by auto
qed


lemma map_result_Inl:
  "map_result f xs = Inl e \<Longrightarrow> \<exists>x\<in>set xs. f x = Inl e"
  by (induction xs) (auto split: sum.splits)

lemma shifted_date_raised:
  assumes "shifted_date lib delta d = Inl e"
  shows "raised_by lib ck e"
proof (cases "mktime_tz lib d")
  case (Inl err)
  with assms have "mktime_tz lib d = Inl e" by (simp add: shifted_date_def)
  then show ?thesis unfolding raised_by_def by blast
next
  case (Inr t)
  with assms have "formatdate lib (float_add lib t delta) = Inl e" by (simp add: shifted_date_def)
  then show ?thesis unfolding raised_by_def by blast
qed

lemma parsedate_raised: "parsedate_tz lib s = Inl e \<Longrightarrow> raised_by lib ck e"
  unfolding raised_by_def by blast

lemma refresh_header_raised:
  "refresh_header lib delta i h = Inl e \<Longrightarrow> raised_by lib ck e"
  by (auto simp: refresh_header_def dest: shifted_date_raised parsedate_raised
      split: if_splits list.splits sum.splits option.splits)

lemma refresh_loop_raised:
  "refresh_loop lib delta names h = (h1, Inl e) \<Longrightarrow> raised_by lib ck e"
proof (induction names arbitrary: h)
  case Nil
  then show ?case by simp
next
  case (Cons i names)
  then show ?case
    by (cases "refresh_header lib delta i h") (auto dest: refresh_header_raised)
qed

lemma refresh_morsel_raised:
  "refresh_morsel lib delta i = Inl e \<Longrightarrow> raised_by lib ck e"
  by (auto simp: refresh_morsel_def dest: shifted_date_raised parsedate_raised
      split: sum.splits option.splits)

lemma refresh_cookie_raised:
  "refresh_cookie lib ck c delta = Inl e \<Longrightarrow> raised_by lib ck e"
proof -
  assume a: "refresh_cookie lib ck c delta = Inl e"
  show ?thesis
  proof (cases "SimpleCookie ck c")
    case (Inl err)
    with a show ?thesis by (auto simp: refresh_cookie_def raised_by_def)
  next
    case (Inr ms)
    show ?thesis
    proof (cases "map_result (refresh_morsel lib delta) ms")
      case (Inl err)
      with a Inr have "err = e" by (simp add: refresh_cookie_def)
      with Inl show ?thesis
        using map_result_Inl refresh_morsel_raised by blast
    next
      case ms': (Inr ms')
      with a Inr show ?thesis
        by (auto simp: refresh_cookie_def raised_by_def split: sum.splits)
    qed
  qed
qed

lemma refresh_from_raised:
  assumes "snd (refresh_from lib ck delta r) = Inl e"
  shows "raised_by lib ck e"
proof -
  obtain h1 res where l: "refresh_loop lib delta refresh_headers (headers r) = (h1, res)"
    by (cases "refresh_loop lib delta refresh_headers (headers r)")
  show ?thesis
  proof (cases res)
    case (Inl err)
    with l assms have "err = e" by (simp add: refresh_from_def)
    with l Inl show ?thesis using refresh_loop_raised by blast
  next
    case (Inr u)
    with l assms have
      "map_result (\<lambda>i. refresh_cookie lib ck i delta) (odict_get ''set-cookie'' h1) = Inl e"
      by (auto simp: refresh_from_def split: sum.splits)
    then show ?thesis
      using map_result_Inl [of "\<lambda>i. refresh_cookie lib ck i delta"] refresh_cookie_raised
      by blast
  qed
qed

text \<open>
  C10. \<^verbatim>\<open>refresh\<close> raises \<^verbatim>\<open>TypeError\<close> and leaves the response alone when its
  \<^verbatim>\<open>timestamp_start\<close> is \<^verbatim>\<open>None\<close>, whatever \<^verbatim>\<open>now\<close> is. With a time stamp the
  subtraction returns and \<^verbatim>\<open>refresh\<close> goes on to the headers, and an exception it then
  raises is one that a library call raised.
\<close>

theorem refresh_needs_timestamp:
  "(timestamp_start r = None \<longrightarrow> refresh lib ck now r = (r, Inl TypeError))
   \<and> (\<forall>t0. timestamp_start r = Some t0 \<longrightarrow>
         refresh lib ck now r = refresh_from lib ck (float_sub lib (now_or_clock lib now) t0) r)
   \<and> (\<forall>t0 e. timestamp_start r = Some t0 \<and> snd (refresh lib ck now r) = Inl e \<longrightarrow>
         raised_by lib ck e)"
  using refresh_from_raised [of lib ck _ r]
  by (auto simp: refresh_def Let_def)

lemma sample_badcookie:
  "refresh sample_stdlib sample_cookielib (Some 4600) resp_badcookie =
     (resp_badcookie\<lparr>headers := [(''Set-Cookie'', ''sid=abc''), (''Set-Cookie'', ''a,b=c''),
                                 (''date'', ''Thu, 01 Jan 1970 01:16:40 -0000'')]\<rparr>,
      Inl CookieError)"
  by code_simp

theorem refresh_needs_timestamp_witness:
  "refresh sample_stdlib sample_cookielib (Some 4600) resp_unsent = (resp_unsent, Inl TypeError)
   \<and> refresh sample_stdlib sample_cookielib None resp_unsent = (resp_unsent, Inl TypeError)
   \<and> snd (refresh sample_stdlib sample_cookielib (Some 4600) resp_badcookie) = Inl CookieError
   \<and> raised_by sample_stdlib sample_cookielib CookieError"
proof -
  have t: "timestamp_start resp_unsent = None" "timestamp_start resp_badcookie = Some 1000"
    by (simp_all add: resp_unsent_def resp_badcookie_def resp_whole_def)
  have b: "snd (refresh sample_stdlib sample_cookielib (Some 4600) resp_badcookie) = Inl CookieError"
    by (simp add: sample_badcookie)
  from refresh_needs_timestamp [of resp_unsent sample_stdlib sample_cookielib "Some 4600"]
    refresh_needs_timestamp [of resp_unsent sample_stdlib sample_cookielib None]
    refresh_needs_timestamp [of resp_badcookie sample_stdlib sample_cookielib "Some 4600"]
    t b
  show ?thesis by blast
qed

lemma now_effective:
  "now = Some n \<and> n \<noteq> 0 \<or> now = None \<and> n = time_time lib \<Longrightarrow> now_or_clock lib now = n"
  by (auto simp: now_or_clock_def)

lemma refresh_Inr:
  assumes "timestamp_start r = Some t0"
    and "now = Some n \<and> n \<noteq> 0 \<or> now = None \<and> n = time_time lib"
    and "refresh lib ck now r = (r', Inr ())"
  shows "refresh_from lib ck (float_sub lib n t0) r = (r', Inr ())"
  using assms by (simp add: refresh_Some now_effective)

subsection \<open>Evaluation of the sample responses\<close>

lemma sample_returns:
  "snd (refresh sample_stdlib sample_cookielib (Some 4600) resp_whole) = Inr ()"
  "snd (refresh sample_stdlib sample_cookielib None resp_whole) = Inr ()"
  "snd (refresh sample_stdlib sample_cookielib (Some 2000) resp_frac) = Inr ()"
  "snd (refresh sample_stdlib sample_cookielib (Some 0) resp_whole) = Inr ()"
  by code_simp+

lemma sample_dates:
  "odict_get ''date'' (headers (fst (refresh sample_stdlib sample_cookielib (Some 2000) resp_frac)))
     = [''Thu, 01 Jan 1970 00:33:19 -0000'']"
  "odict_get ''date'' (headers (fst (refresh sample_stdlib sample_cookielib (Some 0) resp_whole)))
     = [''Wed, 04 Nov 2015 08:00:00 -0000'']"
  by code_simp+

lemma sample_instants:
  "instant_of sample_stdlib ''Thu, 01 Jan 1970 00:16:40 GMT'' = Some 1000"
  "instant_of sample_stdlib ''Thu, 01 Jan 1970 00:33:19 -0000'' = Some 1999"
  "instant_of sample_stdlib ''Wed, 04 Nov 2015 08:00:00 -0000'' = Some 1446624000"
  "parsedate_tz sample_stdlib ''never'' = Inr None"
  by code_simp+

lemma sample_floats:
  "float_sub sample_stdlib 4600 1000 = 3600"
  "float_add sample_stdlib 1000 3600 = 4600"
  "float_sub sample_stdlib 1446624000 1000 = 1446623000"
  "float_add sample_stdlib 1000 1446623000 = 1446624000"
  "time_time sample_stdlib = 1446624000"
  by code_simp+

lemma sample_whole_seconds:
  "whole_seconds sample_stdlib 4600"
  "whole_seconds sample_stdlib 1446624000"
  by code_simp+

lemma resp_fields:
  "timestamp_start resp_whole = Some 1000"
  "timestamp_start resp_frac = Some (2001 / 2)"
  "odict_get ''date'' (headers resp_whole) = [''Thu, 01 Jan 1970 00:16:40 GMT'']"
  "odict_get ''date'' (headers resp_frac) = [''Thu, 01 Jan 1970 00:16:40 GMT'']"
  "odict_get ''expires'' (headers resp_whole) = [''never'']"
  "odict_get ''set-cookie'' (headers resp_whole) =
     [''sid=abc; expires=Thu, 31-Dec-2037 23:59:59 GMT'', ''tok=x; expires=soon; Path=/; secure'']"
  by (simp_all add: resp_whole_def resp_frac_def odict_get_def same_key_def lower_def lower_char_def)

lemma returned: "snd x = Inr () \<Longrightarrow> x = (fst x, Inr ())"
  by (cases x) simp

subsection \<open>The date headers\<close>

text \<open>
  C5, as amended. Let the response have the time stamp \<open>t0\<close>, let \<^verbatim>\<open>now\<close> be given and not
  zero, or omitted and then the time of the clock, and let \<^verbatim>\<open>refresh\<close> return. The shift
  \<open>delta\<close> is the float difference of \<^verbatim>\<open>now\<close> and \<open>t0\<close>. For each of the names \<^verbatim>\<open>date\<close>,
  \<^verbatim>\<open>expires\<close>, \<^verbatim>\<open>last-modified\<close> that the response has: if the first value parses to the
  instant \<open>t\<close>, the header has afterwards the single value that \<^verbatim>\<open>formatdate\<close> prints for the
  float sum of \<open>t\<close> and \<open>delta\<close>; where the library's round trip holds at that time, the
  value of the header parses back to the integer part of the sum, and to \<open>t + (now - t0)\<close>
  itself when difference and sum are exact and a whole number of seconds. If the first value
  does not parse, the values of the header stay as they were.
\<close>

theorem refresh_date_headers:
  fixes r r' :: "'a response_scheme" and lib :: stdlib and now :: "rat option"
  assumes ts: "timestamp_start r = Some t0"
    and n: "now = Some n \<and> n \<noteq> 0 \<or> now = None \<and> n = time_time lib"
    and i: "i \<in> set refresh_headers"
    and v: "odict_get i (headers r) = v # vs"
    and ret: "refresh lib ck now r = (r', Inr ())"
  defines "delta \<equiv> float_sub lib n t0"
  shows "(\<forall>t. instant_of lib v = Some t \<longrightarrow>
            (\<exists>s. formatdate lib (float_add lib t delta) = Inr s
                \<and> odict_get i (headers r') = [s])
          \<and> (whole_seconds lib (float_add lib t delta) \<longrightarrow>
               (\<exists>s. odict_get i (headers r') = [s]
                   \<and> instant_of lib s = Some (of_int \<lfloor>float_add lib t delta\<rfloor>)
                   \<and> (delta = n - t0 \<and> float_add lib t delta = t + delta \<and> t + delta \<in> \<int>
                        \<longrightarrow> instant_of lib s = Some (t + (n - t0))))))
       \<and> (parsedate_tz lib v = Inr None \<longrightarrow> odict_get i (headers r') = v # vs)"
proof -
  from refresh_from_Inr [OF refresh_Inr [OF ts n ret]] obtain h1 where
    l: "refresh_loop lib delta refresh_headers (headers r) = (h1, Inr ())"
    and g: "\<forall>j\<in>set refresh_headers. odict_get j (headers r') = odict_get j h1"
    unfolding delta_def by blast
  from refresh_loop_same [OF l i] g i v
  have rt: "refreshed_to lib delta (v # vs) (odict_get i (headers r'))"
    by simp
  have date: "\<exists>s. formatdate lib (float_add lib t delta) = Inr s \<and> odict_get i (headers r') = [s]"
    if t: "instant_of lib v = Some t" for t
  proof -
    from t obtain d where d: "parsedate_tz lib v = Inr (Some d)" and m: "mktime_tz lib d = Inr t"
      by (auto simp: instant_of_def split: sum.splits option.splits)
    from rt d m show ?thesis
      by (auto simp: refreshed_to_def shifted_date_def)
  qed
  have parse_back: "\<exists>s. odict_get i (headers r') = [s]
                   \<and> instant_of lib s = Some (of_int \<lfloor>float_add lib t delta\<rfloor>)
                   \<and> (delta = n - t0 \<and> float_add lib t delta = t + delta \<and> t + delta \<in> \<int>
                        \<longrightarrow> instant_of lib s = Some (t + (n - t0)))"
    if t: "instant_of lib v = Some t" and w: "whole_seconds lib (float_add lib t delta)" for t
  proof -
    from date [OF t] obtain s where
      s: "formatdate lib (float_add lib t delta) = Inr s" "odict_get i (headers r') = [s]"
      by blast
    from w s have b: "instant_of lib s = Some (of_int \<lfloor>float_add lib t delta\<rfloor>)"
      by (simp add: whole_seconds_def)
    have "instant_of lib s = Some (t + (n - t0))"
      if e: "delta = n - t0 \<and> float_add lib t delta = t + delta \<and> t + delta \<in> \<int>"
    proof -
      from e have e1: "float_add lib t delta = t + delta" and e2: "t + delta \<in> \<int>"
        and e3: "delta = n - t0"
        by blast+
      from e2 have "of_int \<lfloor>t + delta\<rfloor> = t + delta" by (rule of_int_floor)
      then have "of_int \<lfloor>float_add lib t delta\<rfloor> = t + delta" by (simp only: e1)
      moreover have "t + delta = t + (n - t0)" by (simp only: e3)
      ultimately show ?thesis using b by simp
    qed
    with s b show ?thesis by blast
  qed
  have keep: "odict_get i (headers r') = v # vs" if "parsedate_tz lib v = Inr None"
    using rt that by (simp add: refreshed_to_def)
  from date parse_back keep show ?thesis by blast
qed

theorem refresh_date_headers_witness:
  "(\<exists>s. odict_get ''date''
           (headers (fst (refresh sample_stdlib sample_cookielib (Some 4600) resp_whole))) = [s]
       \<and> instant_of sample_stdlib s = Some (1000 + (4600 - 1000)))
   \<and> odict_get ''expires''
        (headers (fst (refresh sample_stdlib sample_cookielib (Some 4600) resp_whole))) = [''never'']
   \<and> (\<exists>s. odict_get ''date''
              (headers (fst (refresh sample_stdlib sample_cookielib None resp_whole))) = [s]
          \<and> instant_of sample_stdlib s = Some (1000 + (1446624000 - 1000)))"
proof -
  have i: "''date'' \<in> set refresh_headers" "''expires'' \<in> set refresh_headers"
    by (simp_all add: refresh_headers_def)
  have n1: "Some 4600 = Some (4600::rat) \<and> (4600::rat) \<noteq> 0
            \<or> Some (4600::rat) = None \<and> (4600::rat) = time_time sample_stdlib"
    by simp
  have n2: "(None :: rat option) = Some 1446624000 \<and> (1446624000::rat) \<noteq> 0
            \<or> (None :: rat option) = None \<and> 1446624000 = time_time sample_stdlib"
    by (simp add: sample_floats)
  note date = refresh_date_headers [OF resp_fields(1) n1 i(1) resp_fields(3)
      returned [OF sample_returns(1)], THEN conjunct1, rule_format, OF sample_instants(1),
      THEN conjunct2, unfolded sample_floats, rule_format, OF sample_whole_seconds(1)]
  note expires = refresh_date_headers [OF resp_fields(1) n1 i(2) resp_fields(5)
      returned [OF sample_returns(1)], THEN conjunct2, rule_format, OF sample_instants(4)]
  note clock = refresh_date_headers [OF resp_fields(1) n2 i(1) resp_fields(3)
      returned [OF sample_returns(2)], THEN conjunct1, rule_format, OF sample_instants(1),
      THEN conjunct2, unfolded sample_floats, rule_format, OF sample_whole_seconds(2)]
  have z: "(3600::rat) = 4600 - 1000 \<and> (4600::rat) = 1000 + 3600 \<and> (1000::rat) + 3600 \<in> \<int>"
    by simp
  have z': "(1446623000::rat) = 1446624000 - 1000 \<and> (1446624000::rat) = 1000 + 1446623000
            \<and> (1000::rat) + 1446623000 \<in> \<int>"
    by simp
  from date obtain s where
    s: "odict_get ''date''
          (headers (fst (refresh sample_stdlib sample_cookielib (Some 4600) resp_whole))) = [s]"
    and e: "(3600::rat) = 4600 - 1000 \<and> (4600::rat) = 1000 + 3600 \<and> (1000::rat) + 3600 \<in> \<int>
            \<longrightarrow> instant_of sample_stdlib s = Some (1000 + (4600 - 1000))"
    by blast
  from clock obtain s' where
    s': "odict_get ''date''
          (headers (fst (refresh sample_stdlib sample_cookielib None resp_whole))) = [s']"
    and e': "(1446623000::rat) = 1446624000 - 1000 \<and> (1446624000::rat) = 1000 + 1446623000
            \<and> (1000::rat) + 1446623000 \<in> \<int>
            \<longrightarrow> instant_of sample_stdlib s' = Some (1000 + (1446624000 - 1000))"
    by blast
  from s e [rule_format, OF z] s' e' [rule_format, OF z'] expires
  show ?thesis by blast
qed

text \<open>
  The claim as first stated has the new header parse back to \<open>t + delta\<close> exactly, with
  \<open>delta\<close> the argument minus the time stamp. A response stamped at 1000.5 and refreshed at
  2000 has its date of instant 1000 rewritten to a text for 1999, not 1999.5. And with the
  argument 0 the shift is taken from the clock, not from 0.
\<close>

theorem refresh_date_exact_counterexample:
  "snd (refresh sample_stdlib sample_cookielib (Some 2000) resp_frac) = Inr ()
   \<and> instant_of sample_stdlib (hd (odict_get ''date'' (headers resp_frac))) = Some 1000
   \<and> odict_get ''date'' (headers (fst (refresh sample_stdlib sample_cookielib (Some 2000) resp_frac)))
       = [''Thu, 01 Jan 1970 00:33:19 -0000'']
   \<and> instant_of sample_stdlib ''Thu, 01 Jan 1970 00:33:19 -0000'' = Some 1999
   \<and> (1999::rat) \<noteq> 1000 + (2000 - 2001 / 2)
   \<and> snd (refresh sample_stdlib sample_cookielib (Some 0) resp_whole) = Inr ()
   \<and> odict_get ''date'' (headers (fst (refresh sample_stdlib sample_cookielib (Some 0) resp_whole)))
       = [''Wed, 04 Nov 2015 08:00:00 -0000'']
   \<and> instant_of sample_stdlib ''Wed, 04 Nov 2015 08:00:00 -0000'' = Some 1446624000
   \<and> (1446624000::rat) \<noteq> 1000 + (0 - 1000)"
  using sample_returns sample_dates sample_instants
  by (simp add: resp_fields)

subsection \<open>The cookies\<close>

lemma attr_value_absent:
  assumes "a \<notin> fst ` set (attrs m)"
  shows "attr_value m a = []"
proof -
  from assms have "map_of (attrs m) a = None"
    by (simp add: map_of_eq_None_iff)
  then show ?thesis by (simp add: attr_value_def)
qed



lemma same_cookie_code [code]:
  "same_cookie m m' =
     (key m' = key m \<and> val m' = val m \<and> coded_value m' = coded_value m
      \<and> list_all (\<lambda>a. attr_value m' a = attr_value m a) (map fst (attrs m) @ map fst (attrs m')))"
proof -
  have "(\<forall>a. attr_value m' a = attr_value m a)
        = list_all (\<lambda>a. attr_value m' a = attr_value m a) (map fst (attrs m) @ map fst (attrs m'))"
  proof
    assume "\<forall>a. attr_value m' a = attr_value m a"
    then show "list_all (\<lambda>a. attr_value m' a = attr_value m a) (map fst (attrs m) @ map fst (attrs m'))"
      by (simp add: list_all_iff)
  next
    assume l: "list_all (\<lambda>a. attr_value m' a = attr_value m a) (map fst (attrs m) @ map fst (attrs m'))"
    show "\<forall>a. attr_value m' a = attr_value m a"
    proof
      fix a
      show "attr_value m' a = attr_value m a"
      proof (cases "a \<in> fst ` set (attrs m) \<or> a \<in> fst ` set (attrs m')")
        case True
        with l show ?thesis by (auto simp: list_all_iff)
      next
        case False
        then show ?thesis by (simp add: attr_value_absent)
      qed
    qed
  qed
  then show ?thesis by (simp add: same_cookie_def)
qed

lemma refreshed_morsel_code [code]:
  "refreshed_morsel lib delta i i' =
     (key i' = key i \<and> val i' = val i \<and> coded_value i' = coded_value i
      \<and> list_all (\<lambda>a. a = ''expires'' \<or> attr_value i' a = attr_value i a)
          (map fst (attrs i) @ map fst (attrs i'))
      \<and> (case map_of (attrs i) ''expires'' of
            None \<Rightarrow> attr_value i' ''expires'' = []
          | Some e \<Rightarrow>
              (case parsedate_tz lib e of
                 Inl err \<Rightarrow> False
               | Inr None \<Rightarrow> attr_value i' ''expires'' = []
               | Inr (Some d) \<Rightarrow>
                   (case mktime_tz lib d of
                      Inl err \<Rightarrow> False
                    | Inr t \<Rightarrow>
                        (case formatdate lib (float_add lib t delta) of
                           Inl err \<Rightarrow> False
                         | Inr s \<Rightarrow> attr_value i' ''expires'' = s)))))"
proof -
  have "(\<forall>a. a \<noteq> ''expires'' \<longrightarrow> attr_value i' a = attr_value i a)
        = list_all (\<lambda>a. a = ''expires'' \<or> attr_value i' a = attr_value i a)
            (map fst (attrs i) @ map fst (attrs i'))"
  proof
    assume "\<forall>a. a \<noteq> ''expires'' \<longrightarrow> attr_value i' a = attr_value i a"
    then show "list_all (\<lambda>a. a = ''expires'' \<or> attr_value i' a = attr_value i a)
                 (map fst (attrs i) @ map fst (attrs i'))"
      by (auto simp: list_all_iff)
  next
    assume l: "list_all (\<lambda>a. a = ''expires'' \<or> attr_value i' a = attr_value i a)
                 (map fst (attrs i) @ map fst (attrs i'))"
    show "\<forall>a. a \<noteq> ''expires'' \<longrightarrow> attr_value i' a = attr_value i a"
    proof (intro allI impI)
      fix a :: string
      assume a: "a \<noteq> ''expires''"
      show "attr_value i' a = attr_value i a"
      proof (cases "a \<in> fst ` set (attrs i) \<or> a \<in> fst ` set (attrs i')")
        case True
        with l a show ?thesis by (auto simp: list_all_iff)
      next
        case False
        then show ?thesis by (simp add: attr_value_absent)
      qed
    qed
  qed
  then show ?thesis unfolding refreshed_morsel_def by simp
qed













subsection \<open>\<^verbatim>\<open>HTTPFlow.copy\<close>\<close>

lemma MessageMixin_copy_eq:
  assumes "messages s a = Some ro" and "odicts s (obj_headers ro) = Some l"
  shows "MessageMixin_copy s a =
     Some (next_ref s,
           s\<lparr>odicts := (odicts s)(Suc (next_ref s) \<mapsto> l),
             messages := (messages s)(next_ref s \<mapsto> ro\<lparr>obj_headers := Suc (next_ref s)\<rparr>),
             next_ref := Suc (Suc (next_ref s))\<rparr>)"
  using assms by (simp add: MessageMixin_copy_def ODict_copy_def alloc_def Let_def)

lemma Flow_copy_eq:
  assumes "flows s a = Some self"
  shows "Flow_copy s a =
     Some (next_ref s, s\<lparr>flows := (flows s)(next_ref s \<mapsto> self), next_ref := Suc (next_ref s)\<rparr>)"
  using assms by (simp add: Flow_copy_def alloc_def)

lemma copy_request_Some:
  assumes "f_request self = Some rq" and "messages s rq = Some ro"
    and "odicts s (obj_headers ro) = Some l" and "flows s f = Some fo"
  shows "copy_request s self f =
     Some (s\<lparr>odicts := (odicts s)(Suc (next_ref s) \<mapsto> l),
             messages := (messages s)(next_ref s \<mapsto> ro\<lparr>obj_headers := Suc (next_ref s)\<rparr>),
             flows := (flows s)(f \<mapsto> fo\<lparr>f_request := Some (next_ref s)\<rparr>),
             next_ref := Suc (Suc (next_ref s))\<rparr>)"
  using assms by (simp add: copy_request_def MessageMixin_copy_eq set_request_def)

lemma copy_response_Some:
  assumes "f_response self = Some rp" and "messages s rp = Some po"
    and "odicts s (obj_headers po) = Some l" and "flows s f = Some fo"
  shows "copy_response s self f =
     Some (s\<lparr>odicts := (odicts s)(Suc (next_ref s) \<mapsto> l),
             messages := (messages s)(next_ref s \<mapsto> po\<lparr>obj_headers := Suc (next_ref s)\<rparr>),
             flows := (flows s)(f \<mapsto> fo\<lparr>f_response := Some (next_ref s)\<rparr>),
             next_ref := Suc (Suc (next_ref s))\<rparr>)"
  using assms by (simp add: copy_response_def MessageMixin_copy_eq set_response_def)

lemma fresh_bounds:
  assumes "fresh_from s"
  shows "odicts s a = Some l \<Longrightarrow> a < next_ref s"
    and "messages s a = Some ro \<Longrightarrow> a < next_ref s"
    and "flows s a = Some fo \<Longrightarrow> a < next_ref s"
  using assms by (auto simp: fresh_from_def not_le [symmetric])

text \<open>
  C9. In a well-formed store, \<^verbatim>\<open>copy()\<close> of a flow returns a new flow object and leaves
  the old one as it was. The client connection, server connection and error references of
  the copy are those of the original. Request and response of the copy are independent
  copies of those of the original when present (and absent when absent): new message
  objects with new headers objects holding the same entries, so that changing the headers
  of the copy does not change the headers of the original.
\<close>

theorem HTTPFlow_copy_independent:
  assumes fr: "fresh_from s"
    and f: "flows s a = Some self"
    and vq: "valid_message s (f_request self)"
    and vp: "valid_message s (f_response self)"
  shows "\<exists>f s' copy. HTTPFlow_copy s a = Some (f, s') \<and> f \<noteq> a
           \<and> flows s' a = Some self \<and> flows s' f = Some copy
           \<and> f_client_conn copy = f_client_conn self
           \<and> f_server_conn copy = f_server_conn self
           \<and> f_error copy = f_error self
           \<and> independent s s' (f_request self) (f_request copy)
           \<and> independent s s' (f_response self) (f_response copy)"
proof -
  let ?n = "next_ref s"
  have an: "a < ?n" using fresh_bounds(3) [OF fr f] .
  show ?thesis
  proof (cases "f_request self")
    case qNone: None
    show ?thesis
    proof (cases "f_response self")
      case None
      then show ?thesis
        using qNone f an
        by (simp add: HTTPFlow_copy_def Flow_copy_eq copy_request_def copy_response_def
            independent_def)
    next
      case (Some rp)
      with vp obtain po l where po: "messages s rp = Some po" and l: "odicts s (obj_headers po) = Some l"
        by (auto simp: valid_message_def split: option.splits)
      have b: "rp < ?n" "obj_headers po < ?n"
        using fresh_bounds [OF fr] po l by blast+
      show ?thesis
        using qNone Some f an po l b
        by (simp add: HTTPFlow_copy_def Flow_copy_eq copy_request_def copy_response_Some
            independent_def odict_assign_def)
    qed
  next
    case qSome: (Some rq)
    with vq obtain ro lq where ro: "messages s rq = Some ro" and lq: "odicts s (obj_headers ro) = Some lq"
      by (auto simp: valid_message_def split: option.splits)
    have bq: "rq < ?n" "obj_headers ro < ?n"
      using fresh_bounds [OF fr] ro lq by blast+
    show ?thesis
    proof (cases "f_response self")
      case None
      then show ?thesis
        using qSome f an ro lq bq
        by (simp add: HTTPFlow_copy_def Flow_copy_eq copy_request_Some copy_response_def
            independent_def odict_assign_def)
    next
      case (Some rp)
      with vp obtain po l where po: "messages s rp = Some po" and l: "odicts s (obj_headers po) = Some l"
        by (auto simp: valid_message_def split: option.splits)
      have b: "rp < ?n" "obj_headers po < ?n"
        using fresh_bounds [OF fr] po l by blast+
      show ?thesis
        using qSome Some f an ro lq bq po l b
        by (simp add: HTTPFlow_copy_def Flow_copy_eq copy_request_Some copy_response_Some
            independent_def odict_assign_def)
    qed
  qed
qed

theorem HTTPFlow_copy_independent_witness:
  "\<exists>f s' copy c co. HTTPFlow_copy sample_store 0 = Some (f, s') \<and> f \<noteq> 0
     \<and> flows s' f = Some copy
     \<and> f_client_conn copy = Some 2 \<and> f_server_conn copy = Some 3
     \<and> f_request copy = Some c \<and> c \<noteq> 1 \<and> messages s' c = Some co \<and> obj_headers co \<noteq> 10
     \<and> odicts (odict_assign s' (obj_headers co) [(''Host'', ''other.example'')]) 10
         = Some [(''Host'', ''example.com'')]
     \<and> f_response copy = None"
proof -
  have fr: "fresh_from sample_store"
    by (auto simp: fresh_from_def sample_store_def)
  have f: "flows sample_store 0 = Some sample_flow"
    by (simp add: sample_store_def)
  have vq: "valid_message sample_store (f_request sample_flow)"
    by (simp add: valid_message_def sample_store_def sample_flow_def)
  have vp: "valid_message sample_store (f_response sample_flow)"
    by (simp add: valid_message_def sample_flow_def)
  have m: "messages sample_store 1 = Some \<lparr>obj_headers = 10, obj_body = Str []\<rparr>"
    "odicts sample_store 10 = Some [(''Host'', ''example.com'')]"
    by (simp_all add: sample_store_def)
  have c: "f_request sample_flow = Some 1" "f_response sample_flow = None"
    "f_client_conn sample_flow = Some 2" "f_server_conn sample_flow = Some 3"
    by (simp_all add: sample_flow_def)
  from HTTPFlow_copy_independent [OF fr f vq vp]
  obtain f' s' copy where
    r: "HTTPFlow_copy sample_store 0 = Some (f', s')" "f' \<noteq> 0" "flows s' f' = Some copy"
      "f_client_conn copy = Some 2" "f_server_conn copy = Some 3"
    and q: "independent sample_store s' (Some 1) (f_request copy)"
    and p: "independent sample_store s' None (f_response copy)"
    unfolding c by blast
  from q m obtain c' co where
    "f_request copy = Some c'" "c' \<noteq> 1" "messages s' c' = Some co" "obj_headers co \<noteq> 10"
    "\<forall>hs. odicts (odict_assign s' (obj_headers co) hs) 10 = Some [(''Host'', ''example.com'')]"
    by (auto simp: independent_def)
  moreover from p have "f_response copy = None"
    by (simp add: independent_def)
  ultimately show ?thesis
    using r by blast
qed

end
